theory Spec2Isabelle
  imports Main
begin

section \<open>JavaScript values\<close>

text \<open>
  The agent function (\<^verbatim>\<open>supabase/functions/ai-agent/index.ts\<close>) is untyped at its core:
  stream frames, tool calls and tool arguments are all \<^verbatim>\<open>any\<close>. The embedding therefore
  works on JavaScript values. A string is the list of its UTF-16 code units (numbers from 0 to 65535), which is what
  \<^verbatim>\<open>slice\<close>, \<^verbatim>\<open>substring\<close> and \<^verbatim>\<open>length\<close> count; \<open>str\<close> turns an ASCII literal into
  such a string.
\<close>

type_synonym code_unit = int

type_synonym jstring = "code_unit list"

definition str :: "string \<Rightarrow> jstring" where
  "str s = map of_char s"

text \<open>
  A value is \<^verbatim>\<open>undefined\<close> or what \<^verbatim>\<open>JSON.parse\<close> can return. Numbers are modelled for
  the integers (the program never computes with a parsed number; it only tests one for
  truthiness and renders it). An object is the list of its own properties in insertion
  order.
\<close>

datatype json =
    JUndefined
  | JNull
  | JBool bool
  | JNum int
  | JStr jstring
  | JArr "json list"
  | JObj "(jstring \<times> json) list"

definition nullish :: "json \<Rightarrow> bool" where
  "nullish v = (v = JNull \<or> v = JUndefined)"

fun truthy :: "json \<Rightarrow> bool" where
  "truthy JUndefined = False"
| "truthy JNull = False"
| "truthy (JBool b) = b"
| "truthy (JNum n) = (n \<noteq> 0)"
| "truthy (JStr s) = (s \<noteq> [])"
| "truthy (JArr xs) = True"
| "truthy (JObj kvs) = True"

text \<open>\<^verbatim>\<open>a || b\<close>\<close>

definition js_or :: "json \<Rightarrow> json \<Rightarrow> json" where
  "js_or a b = (if truthy a then a else b)"

text \<open>
  \<^verbatim>\<open>v.k\<close> for a value \<open>v\<close> that is neither \<^verbatim>\<open>null\<close> nor \<^verbatim>\<open>undefined\<close> and a
  property name \<open>k\<close>: an own property of an object, the \<^verbatim>\<open>length\<close> of an array or a
  string, \<^verbatim>\<open>undefined\<close> otherwise. (Members inherited from the prototypes are functions,
  not data; the program reads none of them this way.)
\<close>

fun js_get :: "json \<Rightarrow> jstring \<Rightarrow> json" where
  "js_get (JObj kvs) k = (case map_of kvs k of Some v \<Rightarrow> v | None \<Rightarrow> JUndefined)"
| "js_get (JArr xs) k = (if k = str ''length'' then JNum (int (length xs)) else JUndefined)"
| "js_get (JStr s) k = (if k = str ''length'' then JNum (int (length s)) else JUndefined)"
| "js_get v k = JUndefined"

text \<open>\<^verbatim>\<open>v?.k\<close>\<close>

definition opt_get :: "json \<Rightarrow> jstring \<Rightarrow> json" where
  "opt_get v k = (if nullish v then JUndefined else js_get v k)"

text \<open>\<^verbatim>\<open>v?.[0]\<close>\<close>

fun opt_index0 :: "json \<Rightarrow> json" where
  "opt_index0 (JArr xs) = (case xs of [] \<Rightarrow> JUndefined | x # _ \<Rightarrow> x)"
| "opt_index0 (JStr s) = (case s of [] \<Rightarrow> JUndefined | c # _ \<Rightarrow> JStr [c])"
| "opt_index0 (JObj kvs) = js_get (JObj kvs) (str ''0'')"
| "opt_index0 v = JUndefined"

text \<open>Decimal rendering of a number.\<close>

fun show_nat :: "nat \<Rightarrow> jstring" where
  "show_nat n = (if n < 10 then [48 + int n] else show_nat (n div 10) @ [48 + int (n mod 10)])"

declare show_nat.simps [simp del]

definition show_int :: "int \<Rightarrow> jstring" where
  "show_int i = (if i < 0 then 45 # show_nat (nat (- i)) else show_nat (nat i))"

text \<open>\<^verbatim>\<open>xs.join(sep)\<close> on strings already rendered.\<close>

fun intercalate :: "jstring \<Rightarrow> jstring list \<Rightarrow> jstring" where
  "intercalate sep [] = []"
| "intercalate sep [x] = x"
| "intercalate sep (x # y # ys) = x @ sep @ intercalate sep (y # ys)"

text \<open>
  The conversion of a value to a string, behind template literals, \<^verbatim>\<open>+=\<close> on a string,
  \<^verbatim>\<open>join\<close> and \<^verbatim>\<open>JSON.parse\<close>. \<open>None\<close> is the TypeError
  \<^verbatim>\<open>Cannot convert object to primitive value\<close>. An object converts through its
  \<^verbatim>\<open>toString\<close> member: the inherited one answers \<^verbatim>\<open>[object Object]\<close>; an own property
  of that name hides it and, being data, cannot be called, and the \<^verbatim>\<open>valueOf\<close> tried
  next yields no primitive either. An array converts to its elements joined by commas,
  \<^verbatim>\<open>null\<close> and \<^verbatim>\<open>undefined\<close> elements as the empty string; the conversion of an
  element can throw.
\<close>

fun js_String :: "json \<Rightarrow> jstring option" where
  "js_String JUndefined = Some (str ''undefined'')"
| "js_String JNull = Some (str ''null'')"
| "js_String (JBool b) = Some (if b then str ''true'' else str ''false'')"
| "js_String (JNum n) = Some (show_int n)"
| "js_String (JStr s) = Some s"
| "js_String (JArr xs) =
     map_option (intercalate (str '',''))
       (those (map (\<lambda>x. if x = JNull \<or> x = JUndefined then Some [] else js_String x) xs))"
| "js_String (JObj kvs) =
     (if str ''toString'' \<in> set (map fst kvs) then None else Some (str ''[object Object]''))"

text \<open>\<^verbatim>\<open>xs.join(sep)\<close> on an array of values.\<close>

definition js_join :: "jstring \<Rightarrow> json list \<Rightarrow> jstring option" where
  "js_join sep xs =
     map_option (intercalate sep)
       (those (map (\<lambda>x. if nullish x then Some [] else js_String x) xs))"

text \<open>
  A template literal: its literal parts (\<open>Inl\<close>) and the values of its substitutions
  (\<open>Inr\<close>), each converted to a string, from left to right.
\<close>

fun render :: "(jstring + json) list \<Rightarrow> jstring option" where
  "render [] = Some []"
| "render (Inl s # ps) = map_option (\<lambda>r. s @ r) (render ps)"
| "render (Inr v # ps) =
     (case js_String v of
        None \<Rightarrow> None
      | Some s \<Rightarrow> map_option (\<lambda>r. s @ r) (render ps))"

text \<open>
  The iteration behind the spread \<^verbatim>\<open>...v\<close>: the elements of an array, the code points of
  a string (a surrogate pair stays together); any other value is not iterable and the
  spread throws a TypeError, here \<open>None\<close>.
\<close>

fun code_points :: "jstring \<Rightarrow> json list" where
  "code_points [] = []"
| "code_points [c] = [JStr [c]]"
| "code_points (c # d # cs) =
     (if 55296 \<le> c \<and> c \<le> 56319 \<and> 56320 \<le> d \<and> d \<le> 57343
      then JStr [c, d] # code_points cs
      else JStr [c] # code_points (d # cs))"

fun spread :: "json \<Rightarrow> json list option" where
  "spread (JArr xs) = Some xs"
| "spread (JStr s) = Some (code_points s)"
| "spread v = None"

subsection \<open>String methods\<close>

text \<open>
  The code units \<^verbatim>\<open>trim\<close> strips: the WhiteSpace and LineTerminator code points of
  ECMAScript.
\<close>

definition is_space :: "code_unit \<Rightarrow> bool" where
  "is_space c =
     (c \<in> set [9, 10, 11, 12, 13, 32, 160, 5760, 8232, 8233, 8239, 8287, 12288, 65279]
      \<or> (8192 \<le> c \<and> c \<le> 8202))"

definition trim :: "jstring \<Rightarrow> jstring" where
  "trim s = rev (dropWhile is_space (rev (dropWhile is_space s)))"

definition startsWith :: "jstring \<Rightarrow> jstring \<Rightarrow> bool" where
  "startsWith s p = (take (length p) s = p)"

text \<open>\<^verbatim>\<open>s.slice(n)\<close> for \<open>n \<ge> 0\<close> and \<^verbatim>\<open>s.substring(0, n)\<close>.\<close>

definition slice :: "nat \<Rightarrow> jstring \<Rightarrow> jstring" where
  "slice n s = drop n s"

definition substring0 :: "nat \<Rightarrow> jstring \<Rightarrow> jstring" where
  "substring0 n s = take n s"

text \<open>
  \<^verbatim>\<open>s.split('\n')\<close>: the pieces between line feeds (code unit 10). \<open>split_from cur s\<close>
  continues a piece \<open>cur\<close> already begun. The result is never empty; its last element is
  the text after the last line feed.
\<close>

fun split_from :: "jstring \<Rightarrow> jstring \<Rightarrow> jstring list" where
  "split_from cur [] = [cur]"
| "split_from cur (c # cs) =
     (if c = 10 then cur # split_from [] cs else split_from (cur @ [c]) cs)"

definition split_nl :: "jstring \<Rightarrow> jstring list" where
  "split_nl s = split_from [] s"

section \<open>Stream Relay\<close>

text \<open>
  What the relay puts on the output stream. Each event \<open>e\<close> stands for the string
  \<^verbatim>\<open>data: ${JSON.stringify(e)}\n\n\<close> (the last one for \<^verbatim>\<open>data: [DONE]\n\n\<close>) that
  \<^verbatim>\<open>controller.enqueue\<close> receives.
\<close>

record toolResultBody =
  success :: bool
  message :: json
  pdfUrl :: "json option"

record toolResult =
  tool_call_id :: json
  name :: json
  result :: toolResultBody

datatype event =
    ConversationIdEvent json
  | DeltaEvent json
  | ToolResultsEvent "toolResult list"
  | DoneEvent

text \<open>
  The variables of the read loop in \<^verbatim>\<open>start(controller)\<close>, with the controller's queue.
\<close>

record relay =
  buffer :: jstring
  fullContent :: jstring
  toolCalls :: "json list"
  queue :: "event list"

definition relay_init :: "event list \<Rightarrow> relay" where
  "relay_init q = \<lparr>buffer = [], fullContent = [], toolCalls = [], queue = q\<rparr>"

text \<open>
  The body of \<^verbatim>\<open>try { ... } catch {}\<close> for one parsed frame. A TypeError (reading
  \<^verbatim>\<open>choices\<close> of \<^verbatim>\<open>null\<close>, appending a content that does not convert to a string,
  spreading a value that is not iterable) leaves the body; the empty \<^verbatim>\<open>catch\<close> swallows
  it, and what was done before stays done. \<open>append_content\<close> is the first \<^verbatim>\<open>if\<close>:
  \<open>None\<close> when \<^verbatim>\<open>fullContent += delta.content\<close> throws, before anything is forwarded.
\<close>

definition append_content :: "relay \<Rightarrow> json \<Rightarrow> relay option" where
  "append_content st content =
     (if truthy content
      then (case js_String content of
              None \<Rightarrow> None
            | Some s \<Rightarrow> Some (st\<lparr>fullContent := fullContent st @ s,
                                 queue := queue st @ [DeltaEvent content]\<rparr>))
      else Some st)"

definition frame :: "relay \<Rightarrow> json \<Rightarrow> relay" where
  "frame st parsed =
     (if nullish parsed then st
      else
        let delta = opt_get (opt_index0 (js_get parsed (str ''choices''))) (str ''delta'')
        in case append_content st (opt_get delta (str ''content'')) of
             None \<Rightarrow> st
           | Some st1 \<Rightarrow>
               let calls = opt_get delta (str ''tool_calls'')
               in if truthy calls
                  then (case spread calls of
                          None \<Rightarrow> st1
                        | Some xs \<Rightarrow> st1\<lparr>toolCalls := toolCalls st1 @ xs\<rparr>)
                  else st1)"

text \<open>
  One iteration of \<^verbatim>\<open>for (const line of lines)\<close>. \<open>parse\<close> is \<^verbatim>\<open>JSON.parse\<close>: \<open>Inl\<close> is
  the message of the SyntaxError it throws.
\<close>

definition process_line :: "(jstring \<Rightarrow> jstring + json) \<Rightarrow> relay \<Rightarrow> jstring \<Rightarrow> relay" where
  "process_line parse st line =
     (if trim line = [] \<or> startsWith line (str '':'') then st
      else if \<not> startsWith line (str ''data: '') then st
      else
        let data = trim (slice 6 line)
        in if data = str ''[DONE]'' then st
           else (case parse data of
                   Inl e \<Rightarrow> st
                 | Inr parsed \<Rightarrow> frame st parsed))"

text \<open>
  One iteration of \<^verbatim>\<open>while (true)\<close> after a successful read: the decoded chunk is
  appended to the buffer, the buffer is split at line feeds, the last piece goes back to
  the buffer and the others are processed in order.
\<close>

definition read_chunk :: "(jstring \<Rightarrow> jstring + json) \<Rightarrow> relay \<Rightarrow> jstring \<Rightarrow> relay" where
  "read_chunk parse st value =
     (let lines = split_nl (buffer st @ value)
      in foldl (process_line parse) (st\<lparr>buffer := last lines\<rparr>) (butlast lines))"

text \<open>The loop over the chunks the upstream reader delivers before it reports \<^verbatim>\<open>done\<close>.\<close>

definition read_all :: "(jstring \<Rightarrow> jstring + json) \<Rightarrow> relay \<Rightarrow> jstring list \<Rightarrow> relay" where
  "read_all parse st chunks = foldl (read_chunk parse) st chunks"

text \<open>The payloads of the \<^verbatim>\<open>{delta: ...}\<close> events among the forwarded events.\<close>

fun deltas :: "event list \<Rightarrow> json list" where
  "deltas [] = []"
| "deltas (DeltaEvent v # es) = v # deltas es"
| "deltas (e # es) = deltas es"

text \<open>
  The relay's invariant: the accumulated content is what the forwarded deltas render to.
\<close>

definition content_agrees :: "relay \<Rightarrow> bool" where
  "content_agrees st =
     (case those (map js_String (deltas (queue st))) of
        None \<Rightarrow> False
      | Some ss \<Rightarrow> fullContent st = concat ss)"

section \<open>Effects\<close>

text \<open>
  What a \<^verbatim>\<open>throw\<close> carries: an Error object (Error, TypeError, SyntaxError) with its
  message, or any other value (\<^verbatim>\<open>throw pdfError\<close>).
\<close>

datatype thrown = Exn jstring | Val json

text \<open>
  \<^verbatim>\<open>error.message\<close> in a \<^verbatim>\<open>catch\<close> clause. The program throws a value of its own only
  when that value is truthy, so the read itself does not throw.
\<close>

fun error_message :: "thrown \<Rightarrow> json" where
  "error_message (Exn m) = JStr m"
| "error_message (Val v) = js_get v (str ''message'')"

datatype 'a outcome = Return 'a | Throw thrown

text \<open>How the calls on one table or one edge function fail, when they do.\<close>

datatype failure =
    Errors jstring  \<comment> \<open>the call resolves with \<^verbatim>\<open>{data: null, error: {message}}\<close>\<close>
  | Rejects jstring \<comment> \<open>the awaited promise rejects with an Error\<close>

text \<open>
  The world behind the \<^verbatim>\<open>supabase\<close> client and \<^verbatim>\<open>fetch\<close>: the rows of each table (a row
  is an object), the counter the generated \<^verbatim>\<open>id\<close> column is drawn from, the way calls on a
  table or edge function fail, the data an edge function answers with, and the model
  gateway's answer to the one request the handler sends.
\<close>

record gateway =
  fetch_rejects :: "jstring option"  \<comment> \<open>\<^verbatim>\<open>fetch\<close> itself rejects\<close>
  ok :: bool
  status :: nat
  chunks :: "jstring list"           \<comment> \<open>what \<^verbatim>\<open>reader.read()\<close> delivers, decoded\<close>
  read_rejects :: "jstring option"   \<comment> \<open>a read after the chunks rejects instead of reporting done\<close>
  body :: "jstring + json"           \<comment> \<open>\<^verbatim>\<open>aiResponse.json()\<close>: it throws, or the completion\<close>

record backend =
  tables :: "jstring \<Rightarrow> json list"
  next_id :: nat
  failing :: "jstring \<Rightarrow> failure option"
  edge_functions :: "jstring \<Rightarrow> json \<Rightarrow> json"
  ai :: gateway

text \<open>
  An asynchronous computation, as far as the backend sees it. It has finished, with a value
  or an exception, or it is suspended at an \<^verbatim>\<open>await\<close> on a request it has sent:
  \<open>Await u k\<close> is served when the backend gets to the request, in some state \<open>b\<close>; the
  backend's state becomes \<open>u b\<close> and the computation goes on as \<open>k b\<close>, up to its next
  \<^verbatim>\<open>await\<close>. What runs between two \<^verbatim>\<open>await\<close>s touches no shared state, so nothing
  else is observable of the order in which concurrent computations run.
\<close>

datatype 'a io =
    Done "'a outcome"
  | Await "backend \<Rightarrow> backend" "backend \<Rightarrow> 'a io"

definition ret :: "'a \<Rightarrow> 'a io" where
  "ret x = Done (Return x)"

definition throw :: "thrown \<Rightarrow> 'a io" where
  "throw e = Done (Throw e)"

text \<open>\<open>after m f\<close>: what \<open>f\<close> makes of the outcome of \<open>m\<close>, once \<open>m\<close> has finished.\<close>

primrec after :: "'a io \<Rightarrow> ('a outcome \<Rightarrow> 'b io) \<Rightarrow> 'b io" where
  "after (Done r) f = f r"
| "after (Await u k) f = Await u (\<lambda>b. after (k b) f)"

text \<open>Sequencing: a throw skips what follows; the effects made so far stay.\<close>

definition bnd :: "'a io \<Rightarrow> ('a \<Rightarrow> 'b io) \<Rightarrow> 'b io" where
  "bnd m f = after m (\<lambda>r. case r of Return x \<Rightarrow> f x | Throw e \<Rightarrow> Done (Throw e))"

text \<open>\<^verbatim>\<open>try { m } catch (error) { h error }\<close>\<close>

definition try_catch :: "'a io \<Rightarrow> (thrown \<Rightarrow> 'a io) \<Rightarrow> 'a io" where
  "try_catch m h = after m (\<lambda>r. case r of Return x \<Rightarrow> Done (Return x) | Throw e \<Rightarrow> h e)"

text \<open>
  \<^verbatim>\<open>await\<close> on one request: \<open>op\<close> is what the backend does with it and answers, in
  one step.
\<close>

definition await :: "(backend \<Rightarrow> 'a outcome \<times> backend) \<Rightarrow> 'a io" where
  "await op = Await (\<lambda>b. snd (op b)) (\<lambda>b. Done (fst (op b)))"

text \<open>
  A computation that runs alone: each request is served as soon as it is sent. The result
  is the outcome and the state the backend is left in.
\<close>

primrec run :: "'a io \<Rightarrow> backend \<Rightarrow> 'a outcome \<times> backend" where
  "run (Done r) b = (r, b)"
| "run (Await u k) b = run (k b) (u b)"

text \<open>
  \<^verbatim>\<open>v.k\<close> for any \<open>v\<close>: a TypeError when \<open>v\<close> is \<^verbatim>\<open>null\<close> or \<^verbatim>\<open>undefined\<close>. The message
  is the engine's (V8's wording).
\<close>

definition cannot_read :: "json \<Rightarrow> jstring \<Rightarrow> jstring" where
  "cannot_read v k =
     str ''Cannot read properties of '' @ (if v = JNull then str ''null'' else str ''undefined'')
     @ str '' (reading '' @ [39] @ k @ [39] @ str '')''"

definition read :: "json \<Rightarrow> jstring \<Rightarrow> json io" where
  "read v k = (if nullish v then throw (Exn (cannot_read v k)) else ret (js_get v k))"

text \<open>\<^verbatim>\<open>v[0]\<close> for any \<open>v\<close>.\<close>

definition read_index0 :: "json \<Rightarrow> json io" where
  "read_index0 v = (if nullish v then throw (Exn (cannot_read v (str ''0''))) else ret (opt_index0 v))"

text \<open>
  A method call \<^verbatim>\<open>v.m(...)\<close> on a value that has no such method: a TypeError.
\<close>

definition not_a_function :: "jstring \<Rightarrow> thrown" where
  "not_a_function m = Exn (m @ str '' is not a function'')"

text \<open>What a failed conversion to a string throws.\<close>

definition cannot_convert :: thrown where
  "cannot_convert = Exn (str ''Cannot convert object to primitive value'')"

text \<open>A template literal as an expression.\<close>

definition template :: "(jstring + json) list \<Rightarrow> jstring io" where
  "template ps = (case render ps of None \<Rightarrow> throw cannot_convert | Some s \<Rightarrow> ret s)"

text \<open>
  \<^verbatim>\<open>v.join(sep)\<close>: only arrays have the method. \<open>callee\<close> is the text of the member
  expression, which the TypeError quotes.
\<close>

fun call_join :: "json \<Rightarrow> jstring \<Rightarrow> jstring \<Rightarrow> jstring io" where
  "call_join (JArr xs) callee sep =
     (case js_join sep xs of None \<Rightarrow> throw cannot_convert | Some s \<Rightarrow> ret s)"
| "call_join v callee sep =
     (if nullish v then throw (Exn (cannot_read v (str ''join'')))
      else throw (not_a_function callee))"

text \<open>
  \<^verbatim>\<open>v.toLowerCase()\<close>: only strings have the method. The case mapping is modelled for
  the ASCII letters; other code units are left as they are.
\<close>

fun call_toLowerCase :: "json \<Rightarrow> jstring \<Rightarrow> jstring io" where
  "call_toLowerCase (JStr s) callee =
     ret (map (\<lambda>c. if 65 \<le> c \<and> c \<le> 90 then c + 32 else c) s)"
| "call_toLowerCase v callee =
     (if nullish v then throw (Exn (cannot_read v (str ''toLowerCase'')))
      else throw (not_a_function callee))"

text \<open>
  An array index as a property name: the decimal numeral, without leading zeros, of a number
  below \<open>2\<^sup>3\<^sup>2 - 1\<close>.
\<close>

definition array_index :: "jstring \<Rightarrow> nat option" where
  "array_index k =
     (if k = [] \<or> list_ex (\<lambda>c. c < 48 \<or> 57 < c) k \<or> (1 < length k \<and> hd k = 48) \<or> 10 < length k
      then None
      else let n = foldl (\<lambda>a d. 10 * a + nat (d - 48)) 0 k
           in if n < 4294967295 then Some n else None)"

text \<open>
  The order in which an object lists its own property names: the array indices in
  ascending order, then the other names in the order of their creation.
\<close>

definition own_keys :: "(jstring \<times> json) list \<Rightarrow> jstring list" where
  "own_keys kvs =
     map show_nat (sort (List.map_filter array_index (map fst kvs)))
     @ filter (\<lambda>k. array_index k = None) (map fst kvs)"

text \<open>
  \<^verbatim>\<open>Object.keys(v)\<close>: a TypeError for \<^verbatim>\<open>null\<close> and \<^verbatim>\<open>undefined\<close>, the own property
  names of an object, the indices of an array or a string, nothing for a number or a
  boolean.
\<close>

fun object_keys :: "json \<Rightarrow> jstring list io" where
  "object_keys (JObj kvs) = ret (own_keys kvs)"
| "object_keys (JArr xs) = ret (map show_nat [0 ..< length xs])"
| "object_keys (JStr s) = ret (map show_nat [0 ..< length s])"
| "object_keys (JBool b) = ret []"
| "object_keys (JNum n) = ret []"
| "object_keys v = throw (Exn (str ''Cannot convert undefined or null to object''))"

text \<open>\<^verbatim>\<open>JSON.parse(v)\<close>: the argument is converted to a string first.\<close>

definition JSON_parse :: "(jstring \<Rightarrow> jstring + json) \<Rightarrow> json \<Rightarrow> json io" where
  "JSON_parse parse v =
     (case js_String v of
        None \<Rightarrow> throw cannot_convert
      | Some text \<Rightarrow> (case parse text of Inl m \<Rightarrow> throw (Exn m) | Inr x \<Rightarrow> ret x))"

subsection \<open>The persistence boundary\<close>

text \<open>
  The answer \<^verbatim>\<open>{data, error}\<close> an awaited query or function call resolves with.
\<close>

record reply =
  data :: json
  error :: json

definition error_reply :: "jstring \<Rightarrow> reply" where
  "error_reply m = \<lparr>data = JNull, error = JObj [(str ''message'', JStr m)]\<rparr>"

text \<open>
  An awaited call on table or function \<open>t\<close>: it rejects, resolves with an error, or runs.
\<close>

definition serve_call :: "jstring \<Rightarrow> (backend \<Rightarrow> reply \<times> backend) \<Rightarrow> backend \<Rightarrow> reply outcome \<times> backend" where
  "serve_call t query b =
     (case failing b t of
        Some (Rejects m) \<Rightarrow> (Throw (Exn m), b)
      | Some (Errors m) \<Rightarrow> (Return (error_reply m), b)
      | None \<Rightarrow> (case query b of (r, b') \<Rightarrow> (Return r, b')))"

definition call :: "jstring \<Rightarrow> (backend \<Rightarrow> reply \<times> backend) \<Rightarrow> reply io" where
  "call t query = await (serve_call t query)"

text \<open>
  \<^verbatim>\<open>.eq(column, value)\<close>: the rows whose column holds the value (compared as values).
\<close>

fun matches :: "jstring \<Rightarrow> json \<Rightarrow> json \<Rightarrow> bool" where
  "matches c v (JObj kvs) = (map_of kvs c = Some v)"
| "matches c v r = False"

text \<open>Setting one column of a row; a new column goes last.\<close>

fun obj_set :: "jstring \<Rightarrow> json \<Rightarrow> (jstring \<times> json) list \<Rightarrow> (jstring \<times> json) list" where
  "obj_set k v [] = [(k, v)]"
| "obj_set k v ((k', v') # r) = (if k' = k then (k, v) # r else (k', v') # obj_set k v r)"

text \<open>
  The request body is JSON: a property whose value is \<^verbatim>\<open>undefined\<close> is not sent.
\<close>

definition sent_fields :: "(jstring \<times> json) list \<Rightarrow> (jstring \<times> json) list" where
  "sent_fields kvs = filter (\<lambda>(k, v). v \<noteq> JUndefined) kvs"

fun patch :: "(jstring \<times> json) list \<Rightarrow> json \<Rightarrow> json" where
  "patch fs (JObj kvs) = JObj (foldl (\<lambda>row (k, v). obj_set k v row) kvs (sent_fields fs))"
| "patch fs r = r"

text \<open>
  The row an insert stores: the sent fields, with the \<^verbatim>\<open>id\<close> column the database
  generates in front.
\<close>

definition new_row :: "nat \<Rightarrow> (jstring \<times> json) list \<Rightarrow> json" where
  "new_row n fs = JObj ((str ''id'', JNum (int (Suc n))) # sent_fields fs)"

fun new_rows :: "nat \<Rightarrow> (jstring \<times> json) list list \<Rightarrow> json list" where
  "new_rows n [] = []"
| "new_rows n (f # fs) = new_row n f # new_rows (Suc n) fs"

text \<open>\<^verbatim>\<open>await supabase.from(t).insert(rows)\<close>\<close>

definition insert_rows :: "jstring \<Rightarrow> (jstring \<times> json) list list \<Rightarrow> reply io" where
  "insert_rows t rows =
     call t (\<lambda>b. (\<lparr>data = JNull, error = JNull\<rparr>,
                 b\<lparr>tables := (tables b)(t := tables b t @ new_rows (next_id b) rows),
                   next_id := next_id b + length rows\<rparr>))"

text \<open>\<^verbatim>\<open>await supabase.from(t).insert(row).select().single()\<close>: the stored row comes back.\<close>

definition insert_returning :: "jstring \<Rightarrow> (jstring \<times> json) list \<Rightarrow> reply io" where
  "insert_returning t row =
     call t (\<lambda>b. (\<lparr>data = new_row (next_id b) row, error = JNull\<rparr>,
                 b\<lparr>tables := (tables b)(t := tables b t @ [new_row (next_id b) row]),
                   next_id := Suc (next_id b)\<rparr>))"

text \<open>
  \<^verbatim>\<open>await supabase.from(t).update(fields).eq(c, v)\<close>. What is not an object cannot be a
  patch: the database answers with an error and changes nothing.
\<close>

fun update_where :: "jstring \<Rightarrow> json \<Rightarrow> jstring \<Rightarrow> json \<Rightarrow> reply io" where
  "update_where t (JObj fs) c v =
     call t (\<lambda>b. (\<lparr>data = JNull, error = JNull\<rparr>,
                 b\<lparr>tables := (tables b)
                     (t := map (\<lambda>r. if matches c v r then patch fs r else r) (tables b t))\<rparr>))"
| "update_where t p c v =
     call t (\<lambda>b. (error_reply (str ''invalid request body''), b))"

text \<open>
  \<^verbatim>\<open>await supabase.from(t).select('*').eq(c, v).single()\<close>: the row when exactly one
  matches, an error otherwise.
\<close>

definition select_single :: "jstring \<Rightarrow> jstring \<Rightarrow> json \<Rightarrow> reply io" where
  "select_single t c v =
     call t (\<lambda>b. (case filter (matches c v) (tables b t) of
                    [r] \<Rightarrow> \<lparr>data = r, error = JNull\<rparr>
                  | rs \<Rightarrow> error_reply (str ''JSON object requested, multiple (or no) rows returned''), b))"

text \<open>
  \<^verbatim>\<open>... .maybeSingle()\<close>: no row is \<^verbatim>\<open>{data: null, error: null}\<close>; more than one row
  is an error.
\<close>

definition select_maybeSingle :: "jstring \<Rightarrow> jstring \<Rightarrow> json \<Rightarrow> reply io" where
  "select_maybeSingle t c v =
     call t (\<lambda>b. (case filter (matches c v) (tables b t) of
                    [] \<Rightarrow> \<lparr>data = JNull, error = JNull\<rparr>
                  | [r] \<Rightarrow> \<lparr>data = r, error = JNull\<rparr>
                  | rs \<Rightarrow> error_reply (str ''JSON object requested, multiple (or no) rows returned''), b))"

text \<open>
  \<^verbatim>\<open>... .order('created_at', {ascending: true}).limit(n)\<close>: rows are kept in insertion
  order.
\<close>

definition select_limit :: "jstring \<Rightarrow> jstring \<Rightarrow> json \<Rightarrow> nat \<Rightarrow> reply io" where
  "select_limit t c v n =
     call t (\<lambda>b. (\<lparr>data = JArr (take n (filter (matches c v) (tables b t))), error = JNull\<rparr>, b))"

text \<open>
  \<^verbatim>\<open>await supabase.functions.invoke(f, {body})\<close>. What the edge function does to the
  database is not part of this model.
\<close>

definition functions_invoke :: "jstring \<Rightarrow> json \<Rightarrow> reply io" where
  "functions_invoke f request = call f (\<lambda>b. (\<lparr>data = edge_functions b f request, error = JNull\<rparr>, b))"

section \<open>Tool Executor\<close>

definition lit :: "string \<Rightarrow> json" where
  "lit s = JStr (str s)"

text \<open>The check mark U+2705 the success messages start with.\<close>

definition check_mark :: jstring where
  "check_mark = [9989]"

text \<open>
  \<^verbatim>\<open>catch (error: any) { result = { success: false, message: `Failed: ${error.message}` } }\<close>,
  the handler every tool's \<^verbatim>\<open>try\<close> block has. The template literal can throw in its
  turn.
\<close>

definition failed :: "thrown \<Rightarrow> toolResultBody io" where
  "failed e =
     bnd (template [Inl (str ''Failed: ''), Inr (error_message e)]) (\<lambda>m.
     ret \<lparr>success = False, message = JStr m, pdfUrl = None\<rparr>)"

definition succeeded :: "jstring \<Rightarrow> toolResultBody" where
  "succeeded m = \<lparr>success = True, message = JStr m, pdfUrl = None\<rparr>"

text \<open>
  Each tool below is the \<^verbatim>\<open>try\<close> block of its \<^verbatim>\<open>case\<close> in \<^verbatim>\<open>executeSingleTool\<close>, in
  the order of evaluation of the source: the first read of a property of \<^verbatim>\<open>args\<close> is
  the one that throws when \<^verbatim>\<open>args\<close> is \<^verbatim>\<open>null\<close> (the later ones cannot), and a template
  literal is evaluated where it stands, so that a conversion that throws skips the requests
  that follow it. The source assigns \<^verbatim>\<open>result\<close> before it writes the audit entry and
  overwrites it in \<^verbatim>\<open>catch\<close>; here the result assigned is returned at the end.
\<close>

definition generate_poa_pdf :: "json \<Rightarrow> jstring \<Rightarrow> toolResultBody io" where
  "generate_poa_pdf args userId =
     try_catch
       (bnd (read args (str ''caseId'')) (\<lambda>caseId.
        let poaType = js_get args (str ''poaType'') in
        bnd (functions_invoke (str ''generate-poa'')
               (JObj [(str ''caseId'', caseId), (str ''poaType'', poaType)])) (\<lambda>r.
        if truthy (error r) then throw (Val (error r))
        else
          bnd (template [Inl (check_mark @ str '' POA (''), Inr poaType,
                         Inl (str '') generated'')]) (\<lambda>msg.
          bnd (template [Inl (str ''AI auto-generated ''), Inr poaType, Inl (str '' POA: ''),
                         Inr (js_or (js_get args (str ''reason'')) (JStr []))]) (\<lambda>details.
          bnd (insert_rows (str ''hac_logs'')
                 [[(str ''case_id'', caseId),
                   (str ''action_type'', lit ''poa_generated''),
                   (str ''action_details'', JStr details),
                   (str ''performed_by'', JStr userId)]]) (\<lambda>_.
          ret \<lparr>success = True, message = JStr msg,
               pdfUrl = Some (opt_get (data r) (str ''pdfUrl''))\<rparr>))))))
       failed"

definition create_task :: "json \<Rightarrow> jstring \<Rightarrow> toolResultBody io" where
  "create_task args userId =
     try_catch
       (bnd (read args (str ''caseId'')) (\<lambda>caseId.
        let title = js_get args (str ''title'') in
        bnd (insert_rows (str ''tasks'')
               [[(str ''case_id'', caseId),
                 (str ''title'', title),
                 (str ''description'', js_or (js_get args (str ''description'')) (JStr [])),
                 (str ''priority'', js_get args (str ''priority'')),
                 (str ''category'', js_or (js_get args (str ''category'')) (lit ''general'')),
                 (str ''due_date'', js_or (js_get args (str ''dueDate'')) JNull),
                 (str ''status'', lit ''pending'')]]) (\<lambda>_.
        bnd (template [Inl (check_mark @ str '' Task created: ''), Inr title]) (\<lambda>msg.
        ret (succeeded msg)))))
       failed"

definition trigger_ocr :: "json \<Rightarrow> jstring \<Rightarrow> toolResultBody io" where
  "trigger_ocr args userId =
     try_catch
       (bnd (read args (str ''documentId'')) (\<lambda>documentId.
        bnd (functions_invoke (str ''ocr-document'')
               (JObj [(str ''documentId'', documentId),
                      (str ''expectedType'', js_get args (str ''expectedType''))])) (\<lambda>_.
        ret (succeeded (check_mark @ str '' OCR triggered'')))))
       failed"

definition update_master_data :: "json \<Rightarrow> jstring \<Rightarrow> toolResultBody io" where
  "update_master_data args userId =
     try_catch
       (bnd (read args (str ''fields'')) (\<lambda>fs.
        let caseId = js_get args (str ''caseId'') in
        bnd (update_where (str ''master_table'') fs (str ''case_id'') caseId) (\<lambda>_.
        bnd (object_keys fs) (\<lambda>keys.
        bnd (template [Inl (str ''AI updated: '' @ intercalate (str '', '') keys @ str ''. ''),
                       Inr (js_or (js_get args (str ''reason'')) (JStr []))]) (\<lambda>details.
        bnd (insert_rows (str ''hac_logs'')
               [[(str ''case_id'', caseId),
                 (str ''action_type'', lit ''master_data_updated''),
                 (str ''action_details'', JStr details),
                 (str ''performed_by'', JStr userId),
                 (str ''metadata'', JObj [(str ''updated_fields'', fs)])]]) (\<lambda>_.
        ret (succeeded (check_mark @ str '' Updated '' @ show_nat (length keys)
                        @ str '' fields''))))))))
       failed"

definition generate_archive_request :: "json \<Rightarrow> jstring \<Rightarrow> toolResultBody io" where
  "generate_archive_request args userId =
     try_catch
       (bnd (read args (str ''caseId'')) (\<lambda>caseId.
        let personType = js_get args (str ''personType'');
            documentTypes = js_get args (str ''documentTypes'') in
        bnd (insert_rows (str ''archive_searches'')
               [[(str ''case_id'', caseId),
                 (str ''person_type'', personType),
                 (str ''document_types'', documentTypes),
                 (str ''archive_name'',
                    js_or (js_get args (str ''archiveLocation'')) (lit ''To be determined'')),
                 (str ''search_type'', lit ''international''),
                 (str ''status'', lit ''pending''),
                 (str ''priority'', lit ''medium'')]]) (\<lambda>_.
        bnd (template [Inl (check_mark @ str '' Archive request created for ''), Inr personType,
                       Inl (str '': '')]) (\<lambda>msg.
        bnd (call_join documentTypes (str ''args.documentTypes.join'') (str '', '')) (\<lambda>joined.
        bnd (template [Inl (str ''AI created archive request for ''), Inr personType,
                       Inl (str '' documents'')]) (\<lambda>details.
        bnd (insert_rows (str ''hac_logs'')
               [[(str ''case_id'', caseId),
                 (str ''action_type'', lit ''archive_request_created''),
                 (str ''action_details'', JStr details),
                 (str ''performed_by'', JStr userId)]]) (\<lambda>_.
        ret (succeeded (msg @ joined)))))))))
       failed"

text \<open>
  \<^verbatim>\<open>obyData\<close>, the audit entry and the result message of \<^verbatim>\<open>create_oby_draft\<close>, for a
  draft that was updated or created.
\<close>

definition oby_data :: "json \<Rightarrow> json \<Rightarrow> json \<Rightarrow> (jstring \<times> json) list" where
  "oby_data caseId masterData args =
     [(str ''case_id'', caseId),
      (str ''status'', lit ''draft''),
      (str ''form_data'', masterData),
      (str ''auto_populated_fields'', js_or (js_get args (str ''autoPopulatedFields'')) (JArr [])),
      (str ''hac_approved'', JBool False)]"

definition oby_log :: "json \<Rightarrow> bool \<Rightarrow> jstring \<Rightarrow> (jstring \<times> json) list" where
  "oby_log caseId updated userId =
     [(str ''case_id'', caseId),
      (str ''action_type'', lit ''oby_draft_created''),
      (str ''action_details'',
         JStr (str ''AI '' @ (if updated then str ''updated'' else str ''created'')
               @ str '' OBY draft skeleton'')),
      (str ''performed_by'', JStr userId)]"

definition oby_message :: "bool \<Rightarrow> json \<Rightarrow> (jstring + json) list" where
  "oby_message updated args =
     [Inl (check_mark @ str '' OBY draft ''
           @ (if updated then str ''updated'' else str ''created'') @ str '' with ''),
      Inr (js_or (opt_get (js_get args (str ''autoPopulatedFields'')) (str ''length'')) (JNum 0)),
      Inl (str '' auto-populated fields'')]"

definition create_oby_draft :: "json \<Rightarrow> jstring \<Rightarrow> toolResultBody io" where
  "create_oby_draft args userId =
     try_catch
       (bnd (read args (str ''caseId'')) (\<lambda>caseId.
        bnd (select_single (str ''master_table'') (str ''case_id'') caseId) (\<lambda>m.
        let masterData = data m in
        if \<not> truthy masterData then throw (Exn (str ''Master data not found''))
        else
          bnd (select_maybeSingle (str ''oby_forms'') (str ''case_id'') caseId) (\<lambda>e.
          let existingOby = data e;
              obyData = oby_data caseId masterData args in
          bnd (if truthy existingOby
               then update_where (str ''oby_forms'') (JObj obyData) (str ''id'')
                      (js_get existingOby (str ''id''))
               else insert_rows (str ''oby_forms'') [obyData]) (\<lambda>_.
          bnd (template (oby_message (truthy existingOby) args)) (\<lambda>msg.
          bnd (insert_rows (str ''hac_logs'') [oby_log caseId (truthy existingOby) userId]) (\<lambda>_.
          ret (succeeded msg))))))))
       failed"

definition draft_wsc_response :: "json \<Rightarrow> jstring \<Rightarrow> toolResultBody io" where
  "draft_wsc_response args userId =
     try_catch
       (bnd (read args (str ''keyPoints'')) (\<lambda>keyPoints.
        bnd (if nullish keyPoints then ret []
             else call_join keyPoints (str ''args.keyPoints?.join'') (str ''; '')) (\<lambda>joined.
        let strategyDetails = (if joined = [] then str ''Strategy drafted by AI'' else joined);
            caseId = js_get args (str ''caseId'');
            strategy = js_get args (str ''strategy'');
            wscLetterId = js_get args (str ''wscLetterId'') in
        bnd (call_toLowerCase strategy (str ''args.strategy.toLowerCase'')) (\<lambda>lower.
        bnd (template [Inl (str ''AI drafted ''), Inr strategy,
                       Inl (str '' strategy: '' @ strategyDetails)]) (\<lambda>details.
        bnd (insert_rows (str ''hac_logs'')
               [[(str ''case_id'', caseId),
                 (str ''action_type'', JStr (str ''wsc_response_'' @ lower)),
                 (str ''action_details'', JStr details),
                 (str ''performed_by'', JStr userId),
                 (str ''related_wsc_id'', js_or wscLetterId JNull),
                 (str ''metadata'',
                    JObj [(str ''strategy'', strategy), (str ''key_points'', keyPoints)])]]) (\<lambda>_.
        bnd (if truthy wscLetterId
             then bnd (template [Inl (str ''WSC Strategy (''), Inr strategy,
                                 Inl (str ''): '' @ strategyDetails)]) (\<lambda>notes.
                  update_where (str ''master_table'') (JObj [(str ''family_notes'', JStr notes)])
                    (str ''case_id'') caseId)
             else ret \<lparr>data = JNull, error = JNull\<rparr>) (\<lambda>_.
        bnd (template [Inl (check_mark @ str '' WSC ''), Inr strategy,
                       Inl (str '' response strategy drafted'')]) (\<lambda>msg.
        ret (succeeded msg)))))))))
       failed"

definition generate_civil_acts_request :: "json \<Rightarrow> jstring \<Rightarrow> toolResultBody io" where
  "generate_civil_acts_request args userId =
     try_catch
       (bnd (read args (str ''caseId'')) (\<lambda>caseId.
        let actType = js_get args (str ''actType'') in
        bnd (template [Inl (str ''Submit Polish ''), Inr actType,
                       Inl (str '' certificate application'')]) (\<lambda>title.
        bnd (template [Inl (str ''AI-generated task: Apply for Polish civil ''), Inr actType,
                       Inl (str '' certificate for ''),
                       Inr (js_or (js_get args (str ''personType'')) (lit ''applicant''))])
            (\<lambda>description.
        bnd (insert_rows (str ''tasks'')
               [[(str ''case_id'', caseId),
                 (str ''title'', JStr title),
                 (str ''description'', JStr description),
                 (str ''priority'', lit ''high''),
                 (str ''category'', lit ''civil_acts''),
                 (str ''status'', lit ''pending'')]]) (\<lambda>_.
        bnd (template [Inl (check_mark @ str '' Civil acts ''), Inr actType,
                       Inl (str '' request created'')]) (\<lambda>msg.
        bnd (template [Inl (str ''AI created ''), Inr actType,
                       Inl (str '' certificate application task'')]) (\<lambda>details.
        bnd (insert_rows (str ''hac_logs'')
               [[(str ''case_id'', caseId),
                 (str ''action_type'', lit ''civil_acts_request''),
                 (str ''action_details'', JStr details),
                 (str ''performed_by'', JStr userId)]]) (\<lambda>_.
        ret (succeeded msg)))))))))
       failed"

text \<open>
  \<^verbatim>\<open>switch (toolCall.function.name)\<close>: strict equality with each of the eight names; with
  no match, \<^verbatim>\<open>result\<close> keeps its initial value.
\<close>

definition tool_names :: "json list" where
  "tool_names =
     [lit ''generate_poa_pdf'', lit ''create_task'', lit ''trigger_ocr'',
      lit ''update_master_data'', lit ''generate_archive_request'', lit ''create_oby_draft'',
      lit ''draft_wsc_response'', lit ''generate_civil_acts_request'']"

definition switch_tool :: "json \<Rightarrow> json \<Rightarrow> jstring \<Rightarrow> toolResultBody io" where
  "switch_tool nm args userId =
     (if nm = lit ''generate_poa_pdf'' then generate_poa_pdf args userId
      else if nm = lit ''create_task'' then create_task args userId
      else if nm = lit ''trigger_ocr'' then trigger_ocr args userId
      else if nm = lit ''update_master_data'' then update_master_data args userId
      else if nm = lit ''generate_archive_request'' then generate_archive_request args userId
      else if nm = lit ''create_oby_draft'' then create_oby_draft args userId
      else if nm = lit ''draft_wsc_response'' then draft_wsc_response args userId
      else if nm = lit ''generate_civil_acts_request'' then generate_civil_acts_request args userId
      else ret \<lparr>success = False, message = lit ''Unknown tool'', pdfUrl = None\<rparr>)"


text \<open>
  \<^verbatim>\<open>executeSingleTool(toolCall, caseId, supabase, userId)\<close>. The outer \<^verbatim>\<open>catch\<close> reads
  \<^verbatim>\<open>toolCall.id\<close> and \<^verbatim>\<open>toolCall.function.name\<close> again, which throws once more when the
  call has no \<^verbatim>\<open>function\<close>: the promise then rejects.
\<close>

definition executeSingleTool ::
  "(jstring \<Rightarrow> jstring + json) \<Rightarrow> json \<Rightarrow> jstring \<Rightarrow> jstring \<Rightarrow> toolResult io" where
  "executeSingleTool parse toolCall caseId userId =
     try_catch
       (bnd (read toolCall (str ''function'')) (\<lambda>fn.
        bnd (read fn (str ''arguments'')) (\<lambda>arguments.
        bnd (JSON_parse parse arguments) (\<lambda>args.
        bnd (switch_tool (js_get fn (str ''name'')) args userId) (\<lambda>res.
        ret \<lparr>tool_call_id = js_get toolCall (str ''id''),
             name = js_get fn (str ''name''),
             result = res\<rparr>)))))
       (\<lambda>e.
        bnd (read toolCall (str ''id'')) (\<lambda>call_id.
        bnd (read toolCall (str ''function'')) (\<lambda>fn.
        bnd (read fn (str ''name'')) (\<lambda>nm.
        ret \<lparr>tool_call_id = call_id,
             name = nm,
             result = \<lparr>success = False, message = error_message e, pdfUrl = None\<rparr>\<rparr>))))"

text \<open>
  A tool call as the model emits it has a \<^verbatim>\<open>function\<close> member (with the name and the
  argument text) next to its \<^verbatim>\<open>id\<close>. \<open>arguments_of\<close> is the text \<^verbatim>\<open>JSON.parse\<close>
  receives (\<open>None\<close> when the member does not convert to a string), \<open>name_of\<close> the value
  the \<^verbatim>\<open>switch\<close> compares, and \<open>parse_failure\<close> the result the outer \<^verbatim>\<open>catch\<close> builds
  from a SyntaxError.
\<close>

definition is_call :: "json \<Rightarrow> bool" where
  "is_call toolCall = (\<not> nullish toolCall \<and> \<not> nullish (js_get toolCall (str ''function'')))"

definition arguments_of :: "json \<Rightarrow> jstring option" where
  "arguments_of toolCall = js_String (js_get (js_get toolCall (str ''function'')) (str ''arguments''))"

definition name_of :: "json \<Rightarrow> json" where
  "name_of toolCall = js_get (js_get toolCall (str ''function'')) (str ''name'')"


text \<open>
  \<^verbatim>\<open>Promise.all(promises)\<close>. The promises are computations already started: each has run
  up to its first \<^verbatim>\<open>await\<close>. From there the backend serves their requests one at a time,
  in an order the program does not control: \<open>sched\<close> lists, step by step, the position of
  the promise whose pending request is served next (a step that names a finished promise,
  or none, is void). When the list is used up, the promises still running are served to
  their end one after the other, in the order of the array; the empty schedule is the
  batch run call by call.

  \<^verbatim>\<open>Promise.all\<close> resolves with the values in the order of the promises, or rejects with
  the rejection that came first; a rejection does not stop the other promises.
  \<open>settle\<close> keeps that first rejection.
\<close>

fun settle :: "thrown option \<Rightarrow> 'a io \<Rightarrow> thrown option" where
  "settle (Some e) t = Some e"
| "settle None (Done (Throw e)) = Some e"
| "settle None t = None"

fun collect :: "'a outcome list \<Rightarrow> 'a list outcome" where
  "collect [] = Return []"
| "collect (Throw e # rs) = Throw e"
| "collect (Return x # rs) = (case collect rs of Return xs \<Rightarrow> Return (x # xs) | Throw e \<Rightarrow> Throw e)"

fun in_order :: "'a io list \<Rightarrow> 'a outcome list io" where
  "in_order [] = ret []"
| "in_order (t # ts) = after t (\<lambda>r. bnd (in_order ts) (\<lambda>rs. ret (r # rs)))"

fun served :: "nat list \<Rightarrow> thrown option \<Rightarrow> 'a io list \<Rightarrow> 'a list io" where
  "served [] first ts =
     bnd (in_order ts) (\<lambda>rs. case first of Some e \<Rightarrow> throw e | None \<Rightarrow> Done (collect rs))"
| "served (i # sched) first ts =
     (if i < length ts
      then (case ts ! i of
              Done r \<Rightarrow> served sched first ts
            | Await u k \<Rightarrow> Await u (\<lambda>b. served sched (settle first (k b)) (ts[i := k b])))
      else served sched first ts)"

definition promise_all :: "nat list \<Rightarrow> 'a io list \<Rightarrow> 'a list io" where
  "promise_all sched ts = served sched (foldl settle None ts) ts"


definition executeToolsParallel ::
  "(jstring \<Rightarrow> jstring + json) \<Rightarrow> nat list \<Rightarrow> json list \<Rightarrow> jstring \<Rightarrow> jstring
     \<Rightarrow> toolResult list io" where
  "executeToolsParallel parse sched calls caseId userId =
     promise_all sched (map (\<lambda>toolCall. executeSingleTool parse toolCall caseId userId) calls)"

section \<open>Agent Orchestrator\<close>

text \<open>
  The request after \<^verbatim>\<open>validateInput\<close> (the schema is not among the sources; its result
  is an input here), and what \<^verbatim>\<open>req.json()\<close> and the validation can give.
\<close>

record request =
  caseId :: "jstring option"
  prompt :: jstring
  action :: jstring
  conversationId :: "jstring option"
  stream :: bool

datatype input =
    Unreadable jstring  \<comment> \<open>\<^verbatim>\<open>req.json()\<close> throws\<close>
  | Invalid jstring     \<comment> \<open>validation fails, with \<^verbatim>\<open>JSON.stringify(validation.details)\<close>\<close>
  | Valid request

datatype stream_end = Closed | Errored thrown

datatype response =
    ErrorResponse json nat                     \<comment> \<open>message and status\<close>
  | JsonResponse json json "toolResult list"   \<comment> \<open>\<^verbatim>\<open>{response, conversationId, toolResults}\<close>\<close>
  | StreamResponse "event list" stream_end     \<comment> \<open>what the stream delivers, and how it ends\<close>

fun opt_str :: "jstring option \<Rightarrow> json" where
  "opt_str None = JUndefined"
| "opt_str (Some s) = JStr s"

definition no_reply :: reply where
  "no_reply = \<lparr>data = JNull, error = JNull\<rparr>"

text \<open>\<^verbatim>\<open>// Get or create conversation\<close>: the active conversation id and whether it is new.\<close>

definition resolve_conversation :: "request \<Rightarrow> (json \<times> bool) io" where
  "resolve_conversation req =
     (if \<not> truthy (opt_str (conversationId req)) \<and> truthy (opt_str (caseId req))
      then bnd (insert_returning (str ''ai_conversations'')
                  [(str ''case_id'', opt_str (caseId req)),
                   (str ''agent_type'', JStr (action req))]) (\<lambda>r.
           ret (opt_get (data r) (str ''id''), True))
      else ret (opt_str (conversationId req), False))"

text \<open>\<^verbatim>\<open>// Fetch conversation history\<close>\<close>

definition fetch_history :: "json \<Rightarrow> json io" where
  "fetch_history activeConversationId =
     (if truthy activeConversationId
      then bnd (select_limit (str ''ai_conversation_messages'') (str ''conversation_id'')
                  activeConversationId 20) (\<lambda>r.
           ret (js_or (data r) (JArr [])))
      else ret (JArr []))"

text \<open>
  \<^verbatim>\<open>// Fetch case data\<close>. The context, the system prompt and the history only shape the
  request sent to the model, and the model's answer is an input of this model; so of
  \<^verbatim>\<open>buildAgentContext\<close> what is kept is when it throws.
\<close>

definition fetch_case :: "request \<Rightarrow> unit io" where
  "fetch_case req =
     (if action req = str ''security_audit'' then ret ()
      else if truthy (opt_str (caseId req))
      then bnd (select_single (str ''cases'') (str ''id'') (opt_str (caseId req))) (\<lambda>r.
           if truthy (error r)
           then bnd (template [Inl (str ''Failed to fetch case: ''),
                               Inr (js_get (error r) (str ''message''))]) (\<lambda>m.
                throw (Exn m))
           else if \<not> truthy (data r) then throw (Exn (str ''Case data required''))
           else ret ())
      else ret ())"

text \<open>
  \<^verbatim>\<open>await fetch(...)\<close> and the check of \<^verbatim>\<open>aiResponse.ok\<close>, the same on both paths.
\<close>

definition fetch_completion :: "gateway io" where
  "fetch_completion =
     await (\<lambda>b. case fetch_rejects (ai b) of
        Some m \<Rightarrow> (Throw (Exn m), b)
      | None \<Rightarrow>
          if ok (ai b) then (Return (ai b), b)
          else (Throw (Exn (str ''AI Gateway error: '' @ show_nat (status (ai b)))), b))"

text \<open>\<^verbatim>\<open>// Save messages\<close>, as both paths do it.\<close>

definition save_messages :: "json \<Rightarrow> jstring \<Rightarrow> json \<Rightarrow> json \<Rightarrow> reply io" where
  "save_messages activeConversationId user_prompt content calls =
     (if truthy activeConversationId
      then insert_rows (str ''ai_conversation_messages'')
             [[(str ''conversation_id'', activeConversationId),
               (str ''role'', lit ''user''),
               (str ''content'', JStr user_prompt)],
              [(str ''conversation_id'', activeConversationId),
               (str ''role'', lit ''assistant''),
               (str ''content'', content),
               (str ''tool_calls'', calls)]]
      else ret no_reply)"

text \<open>
  \<^verbatim>\<open>start(controller)\<close> of the streaming response: what the stream delivers and how it
  ends. An error anywhere in its \<^verbatim>\<open>try\<close> block ends the stream with
  \<^verbatim>\<open>controller.error\<close>; what was enqueued before stays delivered. The controller is
  taken to accept every \<^verbatim>\<open>enqueue\<close> (the client has not cancelled the stream). \<open>sched\<close>
  is the order in which the backend serves the requests of the tool calls.
\<close>

definition start ::
  "(jstring \<Rightarrow> jstring + json) \<Rightarrow> nat list \<Rightarrow> request \<Rightarrow> jstring \<Rightarrow> json \<Rightarrow> bool \<Rightarrow> gateway
     \<Rightarrow> (event list \<times> stream_end) io" where
  "start parse sched req userId activeConversationId isNewConversation aiResponse =
     (let st = read_all parse
                 (relay_init (if isNewConversation \<and> truthy activeConversationId
                              then [ConversationIdEvent activeConversationId] else []))
                 (chunks aiResponse)
      in case read_rejects aiResponse of
           Some m \<Rightarrow> ret (queue st, Errored (Exn m))
         | None \<Rightarrow>
             try_catch
               (bnd (save_messages activeConversationId (prompt req) (JStr (fullContent st))
                       (if toolCalls st \<noteq> [] then JArr (toolCalls st) else JNull)) (\<lambda>_.
                bnd (case caseId req of
                       None \<Rightarrow> ret []
                     | Some c \<Rightarrow>
                         if toolCalls st \<noteq> [] \<and> c \<noteq> []
                         then bnd (executeToolsParallel parse sched (toolCalls st) c userId)
                                (\<lambda>toolResults. ret [ToolResultsEvent toolResults])
                         else ret []) (\<lambda>evs.
                ret (queue st @ evs @ [DoneEvent], Closed))))
               (\<lambda>e. ret (queue st, Errored e)))"

text \<open>
  \<^verbatim>\<open>toolCalls.length > 0\<close>, modelled for the number a \<^verbatim>\<open>length\<close> is (an object's own
  \<^verbatim>\<open>length\<close> property of another type would be converted to a number first).
\<close>

fun js_gt0 :: "json \<Rightarrow> bool" where
  "js_gt0 (JNum n) = (0 < n)"
| "js_gt0 (JBool b) = b"
| "js_gt0 v = False"

text \<open>\<^verbatim>\<open>toolCalls.map(f)\<close>: only arrays have the method.\<close>

fun call_map :: "json \<Rightarrow> json list io" where
  "call_map (JArr xs) = ret xs"
| "call_map v = throw (not_a_function (str ''toolCalls.map''))"

text \<open>\<^verbatim>\<open>responseContent.substring(0, 500)\<close>: only strings have the method.\<close>

fun call_substring :: "json \<Rightarrow> json io" where
  "call_substring (JStr s) = ret (JStr (substring0 500 s))"
| "call_substring v =
     (if nullish v then throw (Exn (cannot_read v (str ''substring'')))
      else throw (not_a_function (str ''responseContent.substring'')))"

text \<open>The non-streaming path, from \<^verbatim>\<open>await aiResponse.json()\<close> on.\<close>

definition complete ::
  "(jstring \<Rightarrow> jstring + json) \<Rightarrow> nat list \<Rightarrow> request \<Rightarrow> jstring \<Rightarrow> json \<Rightarrow> gateway
     \<Rightarrow> response io" where
  "complete parse sched req userId activeConversationId aiResponse =
     bnd (case body aiResponse of Inl m \<Rightarrow> throw (Exn m) | Inr d \<Rightarrow> ret d) (\<lambda>d.
     bnd (read d (str ''choices'')) (\<lambda>choices.
     bnd (read_index0 choices) (\<lambda>choice.
     bnd (read choice (str ''message'')) (\<lambda>msg.
     bnd (read msg (str ''content'')) (\<lambda>responseContent.
     let calls = js_get msg (str ''tool_calls'') in
     bnd (save_messages activeConversationId (prompt req) responseContent (js_or calls JNull)) (\<lambda>_.
     bnd (case caseId req of
            None \<Rightarrow> ret []
          | Some c \<Rightarrow>
              if truthy calls \<and> js_gt0 (js_get calls (str ''length'')) \<and> c \<noteq> []
              then bnd (call_map calls) (\<lambda>xs. executeToolsParallel parse sched xs c userId)
              else ret []) (\<lambda>toolResults.
     bnd (if truthy (opt_str (caseId req))
          then bnd (call_substring responseContent) (\<lambda>preview.
               insert_rows (str ''hac_logs'')
                 [[(str ''case_id'', opt_str (caseId req)),
                   (str ''action_type'', JStr (str ''ai_agent_'' @ action req)),
                   (str ''action_details'', JStr (prompt req)),
                   (str ''performed_by'', JStr userId),
                   (str ''metadata'',
                      JObj [(str ''response_preview'', preview),
                            (str ''conversation_id'', activeConversationId),
                            (str ''tools_used'',
                               js_or (opt_get calls (str ''length'')) (JNum 0))])]])
          else ret no_reply) (\<lambda>_.
     ret (JsonResponse responseContent activeConversationId toolResults)))))))))"

text \<open>
  The request handler, for a request that is neither the health check nor a CORS
  preflight. \<open>header\<close> is the \<^verbatim>\<open>x-user-id\<close> header. The stream's \<^verbatim>\<open>start\<close> runs once
  the response is returned; the model runs it in place.
\<close>

definition serve ::
  "(jstring \<Rightarrow> jstring + json) \<Rightarrow> nat list \<Rightarrow> input \<Rightarrow> jstring option \<Rightarrow> response io" where
  "serve parse sched inp header =
     try_catch
       (case inp of
          Unreadable m \<Rightarrow> throw (Exn m)
        | Invalid details \<Rightarrow> ret (ErrorResponse (JStr (str ''Invalid input: '' @ details)) 400)
        | Valid req \<Rightarrow>
            let userId = (case header of
                            None \<Rightarrow> str ''system''
                          | Some h \<Rightarrow> if h = [] then str ''system'' else h) in
            bnd (resolve_conversation req) (\<lambda>(activeConversationId, isNewConversation).
            bnd (fetch_history activeConversationId) (\<lambda>conversationMessages.
            bnd (fetch_case req) (\<lambda>_.
            bnd fetch_completion (\<lambda>aiResponse.
            if stream req
            then bnd (start parse sched req userId activeConversationId isNewConversation
                        aiResponse) (\<lambda>(evs, fin).
                 ret (StreamResponse evs fin))
            else complete parse sched req userId activeConversationId aiResponse)))))
       (\<lambda>e. ret (ErrorResponse (js_or (error_message e) (lit ''Unknown error'')) 500))"

section \<open>A reference \<^verbatim>\<open>JSON.parse\<close>\<close>

text \<open>
  The definitions above take \<^verbatim>\<open>JSON.parse\<close> as a parameter, and the theorems hold for any
  parser. To run the model on concrete texts, this is a parser for the JSON grammar on code
  units: whitespace, objects, arrays, strings with their escapes, \<^verbatim>\<open>true\<close>, \<^verbatim>\<open>false\<close>,
  \<^verbatim>\<open>null\<close> and integers. It rejects a number with a fraction or an exponent, which
  \<^verbatim>\<open>JSON.parse\<close> accepts; its error message is one fixed text.
\<close>

definition is_ws :: "code_unit \<Rightarrow> bool" where
  "is_ws c = (c = 32 \<or> c = 9 \<or> c = 10 \<or> c = 13)"

definition skip_ws :: "jstring \<Rightarrow> jstring" where
  "skip_ws s = dropWhile is_ws s"

definition is_digit :: "code_unit \<Rightarrow> bool" where
  "is_digit c = (48 \<le> c \<and> c \<le> 57)"

definition unescape :: "code_unit \<Rightarrow> code_unit option" where
  "unescape c =
     (if c = 34 then Some 34 else if c = 92 then Some 92 else if c = 47 then Some 47
      else if c = 98 then Some 8 else if c = 102 then Some 12 else if c = 110 then Some 10
      else if c = 114 then Some 13 else if c = 116 then Some 9 else None)"

definition hex_digit :: "code_unit \<Rightarrow> int option" where
  "hex_digit c =
     (if 48 \<le> c \<and> c \<le> 57 then Some (c - 48)
      else if 65 \<le> c \<and> c \<le> 70 then Some (c - 55)
      else if 97 \<le> c \<and> c \<le> 102 then Some (c - 87)
      else None)"

text \<open>
  The text after an opening quote: the string's code units and what follows the closing
  quote. The second argument counts the hexadecimal digits of a \<^verbatim>\<open>\u\<close> escape still to
  read, the third holds their value so far.
\<close>

fun string_body :: "jstring \<Rightarrow> nat \<Rightarrow> int \<Rightarrow> (jstring \<times> jstring) option" where
  "string_body [] k u = None"
| "string_body (c # cs) (Suc k) u =
     (case hex_digit c of
        None \<Rightarrow> None
      | Some h \<Rightarrow>
          if k = 0
          then (case string_body cs 0 0 of
                  None \<Rightarrow> None
                | Some (s, rest) \<Rightarrow> Some ((16 * u + h) # s, rest))
          else string_body cs k (16 * u + h))"
| "string_body [c] 0 u = (if c = 34 then Some ([], []) else None)"
| "string_body (c # e # cs) 0 u =
     (if c = 34 then Some ([], e # cs)
      else if c < 32 then None
      else if c = 92
      then (if e = 117 then string_body cs 4 0
            else (case unescape e of
                    None \<Rightarrow> None
                  | Some x \<Rightarrow>
                      (case string_body cs 0 0 of
                         None \<Rightarrow> None
                       | Some (s, rest) \<Rightarrow> Some (x # s, rest))))
      else (case string_body (e # cs) 0 0 of
              None \<Rightarrow> None
            | Some (s, rest) \<Rightarrow> Some (c # s, rest)))"

definition json_number :: "jstring \<Rightarrow> (json \<times> jstring) option" where
  "json_number cs =
     (let neg = (cs \<noteq> [] \<and> hd cs = 45);
          r = (if neg then tl cs else cs);
          ds = takeWhile is_digit r;
          rest = dropWhile is_digit r
      in if ds = [] \<or> (1 < length ds \<and> hd ds = 48) then None
         else if rest \<noteq> [] \<and> (hd rest = 46 \<or> hd rest = 101 \<or> hd rest = 69) then None
         else Some (JNum ((if neg then - 1 else 1) * foldl (\<lambda>a d. 10 * a + (d - 48)) 0 ds),
                    rest))"

text \<open>
  The recursive descent, with fuel: every call of \<open>json_value\<close> reads a code unit before
  it calls again, so twice the length of the text is more than the recursion can use.
\<close>

fun json_value :: "nat \<Rightarrow> jstring \<Rightarrow> (json \<times> jstring) option"
  and json_elements :: "nat \<Rightarrow> json list \<Rightarrow> jstring \<Rightarrow> (json \<times> jstring) option"
  and json_members :: "nat \<Rightarrow> (jstring \<times> json) list \<Rightarrow> jstring \<Rightarrow> (json \<times> jstring) option"
where
  "json_value 0 cs = None"
| "json_value (Suc n) cs =
     (case skip_ws cs of
        [] \<Rightarrow> None
      | c # r \<Rightarrow>
          if c = 123
          then (case skip_ws r of
                  [] \<Rightarrow> None
                | d # r' \<Rightarrow> if d = 125 then Some (JObj [], r') else json_members n [] (d # r'))
          else if c = 91
          then (case skip_ws r of
                  [] \<Rightarrow> None
                | d # r' \<Rightarrow> if d = 93 then Some (JArr [], r') else json_elements n [] (d # r'))
          else if c = 34
          then (case string_body r 0 0 of
                  None \<Rightarrow> None
                | Some (s, rest) \<Rightarrow> Some (JStr s, rest))
          else if take 4 (c # r) = str ''true'' then Some (JBool True, drop 4 (c # r))
          else if take 5 (c # r) = str ''false'' then Some (JBool False, drop 5 (c # r))
          else if take 4 (c # r) = str ''null'' then Some (JNull, drop 4 (c # r))
          else json_number (c # r))"
| "json_elements 0 acc cs = None"
| "json_elements (Suc n) acc cs =
     (case json_value n cs of
        None \<Rightarrow> None
      | Some (v, r) \<Rightarrow>
          (case skip_ws r of
             [] \<Rightarrow> None
           | d # r' \<Rightarrow>
               if d = 44 then json_elements n (acc @ [v]) r'
               else if d = 93 then Some (JArr (acc @ [v]), r')
               else None))"
| "json_members 0 acc cs = None"
| "json_members (Suc n) acc cs =
     (case skip_ws cs of
        [] \<Rightarrow> None
      | q # r \<Rightarrow>
          if q \<noteq> 34 then None
          else
            (case string_body r 0 0 of
               None \<Rightarrow> None
             | Some (k, r1) \<Rightarrow>
                 (case skip_ws r1 of
                    [] \<Rightarrow> None
                  | colon # r2 \<Rightarrow>
                      if colon \<noteq> 58 then None
                      else
                        (case json_value n r2 of
                           None \<Rightarrow> None
                         | Some (v, r3) \<Rightarrow>
                             (case skip_ws r3 of
                                [] \<Rightarrow> None
                              | d # r4 \<Rightarrow>
                                  if d = 44 then json_members n (obj_set k v acc) r4
                                  else if d = 125 then Some (JObj (obj_set k v acc), r4)
                                  else None)))))"

definition reference_parse :: "jstring \<Rightarrow> jstring + json" where
  "reference_parse s =
     (case json_value (2 * length s + 2) s of
        None \<Rightarrow> Inl (str ''Unexpected token in JSON'')
      | Some (v, rest) \<Rightarrow>
          if skip_ws rest = [] then Inr v else Inl (str ''Unexpected token in JSON''))"

section \<open>What a computation leaves alone\<close>

text \<open>
  \<open>unchanged T b b'\<close>: from \<open>b\<close> to \<open>b'\<close> no table outside \<open>T\<close> has changed, and
  nothing else of the backend but the id counter. \<open>keeps T m\<close>: no request of \<open>m\<close>,
  whenever it is served, does more. \<open>tool_tables\<close> are the tables the eight tools write to.
\<close>

definition unchanged :: "jstring set \<Rightarrow> backend \<Rightarrow> backend \<Rightarrow> bool" where
  "unchanged T b b' =
     ((\<forall>t. t \<notin> T \<longrightarrow> tables b' t = tables b t)
      \<and> failing b' = failing b \<and> edge_functions b' = edge_functions b \<and> ai b' = ai b)"

primrec keeps :: "jstring set \<Rightarrow> 'a io \<Rightarrow> bool" where
  "keeps T (Done r) = True"
| "keeps T (Await u k) = ((\<forall>b. unchanged T b (u b)) \<and> (\<forall>b. keeps T (k b)))"

definition tool_tables :: "jstring set" where
  "tool_tables =
     {str ''tasks'', str ''hac_logs'', str ''master_table'', str ''oby_forms'',
      str ''archive_searches''}"

text \<open>
  \<open>ends I P m\<close>: if each request of \<open>m\<close> is served in a state where \<open>I\<close> holds, the outcome
  of \<open>m\<close> satisfies \<open>P\<close>.
\<close>

primrec ends :: "(backend \<Rightarrow> bool) \<Rightarrow> ('a outcome \<Rightarrow> bool) \<Rightarrow> 'a io \<Rightarrow> bool" where
  "ends I P (Done r) = P r"
| "ends I P (Await u k) = (\<forall>b. I b \<longrightarrow> ends I P (k b))"

text \<open>
  Outcomes of a tool and of a call: the result a tool's \<^verbatim>\<open>catch\<close> builds from an error
  with message \<open>x\<close>; a tool that ends with such a result; a call that ends with a result
  under its own id and name; a call that ends with such a result and a tool's failure.
\<close>

definition failure :: "jstring \<Rightarrow> toolResultBody" where
  "failure x = \<lparr>success = False, message = JStr (str ''Failed: '' @ x), pdfUrl = None\<rparr>"


definition answers :: "json \<Rightarrow> toolResult outcome \<Rightarrow> bool" where
  "answers toolCall r =
     (\<exists>x. r = Return x \<and> tool_call_id x = js_get toolCall (str ''id'')
           \<and> name x = name_of toolCall)"


section \<open>OBY drafts\<close>

text \<open>
  The drafts of a case, and the state \<^verbatim>\<open>create_oby_draft\<close> is meant for: queries on the
  three tables it uses do not fail, the case has its one master record and at most one
  draft, and the \<^verbatim>\<open>id\<close> column of \<^verbatim>\<open>oby_forms\<close> is a key: every row has one, no two
  rows share it, and the generated values lie below the counter.
\<close>

definition drafts_for :: "json \<Rightarrow> backend \<Rightarrow> json list" where
  "drafts_for c b = filter (matches (str ''case_id'') c) (tables b (str ''oby_forms''))"

definition id_below :: "nat \<Rightarrow> json \<Rightarrow> bool" where
  "id_below n r = (case js_get r (str ''id'') of JNum i \<Rightarrow> i \<le> int n | _ \<Rightarrow> True)"

definition has_id :: "json \<Rightarrow> bool" where
  "has_id r = matches (str ''id'') (js_get r (str ''id'')) r"

definition oby_ready :: "json \<Rightarrow> backend \<Rightarrow> bool" where
  "oby_ready c b =
     (failing b (str ''master_table'') = None
      \<and> failing b (str ''oby_forms'') = None
      \<and> failing b (str ''hac_logs'') = None
      \<and> length (filter (matches (str ''case_id'') c) (tables b (str ''master_table''))) = 1
      \<and> length (drafts_for c b) \<le> 1
      \<and> list_all has_id (tables b (str ''oby_forms''))
      \<and> distinct (map (\<lambda>r. js_get r (str ''id'')) (tables b (str ''oby_forms'')))
      \<and> list_all (id_below (next_id b)) (tables b (str ''oby_forms'')))"

text \<open>
  What \<^verbatim>\<open>create_oby_draft\<close> answers once the draft is written: the success message, or
  the failure its \<^verbatim>\<open>catch\<close> makes of a field count that does not convert to a string.
\<close>

definition oby_result :: "bool \<Rightarrow> json \<Rightarrow> toolResultBody" where
  "oby_result updated args =
     (case render (oby_message updated args) of
        Some msg \<Rightarrow> succeeded msg
      | None \<Rightarrow> \<lparr>success = False,
                 message = lit ''Failed: Cannot convert object to primitive value'',
                 pdfUrl = None\<rparr>)"

section \<open>Messages of a conversation\<close>

text \<open>
  The rows of the conversation store, and the two rows the handler inserts: \<open>n\<close> is the
  value of the id counter at the insert.
\<close>

definition messages_of :: "backend \<Rightarrow> json list" where
  "messages_of b = tables b (str ''ai_conversation_messages'')"

definition user_message :: "nat \<Rightarrow> json \<Rightarrow> jstring \<Rightarrow> json" where
  "user_message n conv p =
     new_row n [(str ''conversation_id'', conv), (str ''role'', lit ''user''),
                (str ''content'', JStr p)]"

definition assistant_message :: "nat \<Rightarrow> json \<Rightarrow> json \<Rightarrow> json \<Rightarrow> json" where
  "assistant_message n conv content calls =
     new_row n [(str ''conversation_id'', conv), (str ''role'', lit ''assistant''),
                (str ''content'', content), (str ''tool_calls'', calls)]"

text \<open>
  \<^verbatim>\<open>data.choices[0].message\<close> of a completion, and the completions in which the path
  to it exists.
\<close>

definition completion_message :: "json \<Rightarrow> json" where
  "completion_message d = js_get (opt_index0 (js_get d (str ''choices''))) (str ''message'')"

definition has_message :: "json \<Rightarrow> bool" where
  "has_message d =
     (\<not> nullish d \<and> \<not> nullish (js_get d (str ''choices''))
      \<and> \<not> nullish (opt_index0 (js_get d (str ''choices'')))
      \<and> \<not> nullish (completion_message d))"

text \<open>
  The reply of the model as the handler reads it off the gateway's answer: the content
  (streaming: what the relay has accumulated) and the tool calls it stores with the
  assistant message.
\<close>

definition reply_content :: "(jstring \<Rightarrow> jstring + json) \<Rightarrow> bool \<Rightarrow> gateway \<Rightarrow> json" where
  "reply_content parse streaming gw =
     (if streaming then JStr (fullContent (read_all parse (relay_init []) (chunks gw)))
      else (case body gw of
              Inl m \<Rightarrow> JUndefined
            | Inr d \<Rightarrow> js_get (completion_message d) (str ''content'')))"

definition reply_tool_calls :: "(jstring \<Rightarrow> jstring + json) \<Rightarrow> bool \<Rightarrow> gateway \<Rightarrow> json" where
  "reply_tool_calls parse streaming gw =
     (if streaming
      then (if toolCalls (read_all parse (relay_init []) (chunks gw)) \<noteq> []
            then JArr (toolCalls (read_all parse (relay_init []) (chunks gw))) else JNull)
      else (case body gw of
              Inl m \<Rightarrow> JNull
            | Inr d \<Rightarrow> js_or (js_get (completion_message d) (str ''tool_calls'')) JNull))"

text \<open>
  When a request gets as far as a reply of the model. It has a conversation: an id came
  with it, or a case id, and the insert of the new conversation is accepted. Its case is
  found: the action is the security audit, or there is no case id, or the query finds the
  one case. The model answers: the gateway answers with success and the reply can be
  read (streaming: no read of the body fails; otherwise the body is a completion with a
  message).
\<close>

definition has_conversation :: "request \<Rightarrow> backend \<Rightarrow> bool" where
  "has_conversation req b =
     (if truthy (opt_str (conversationId req)) then True
      else truthy (opt_str (caseId req)) \<and> failing b (str ''ai_conversations'') = None)"

definition case_found :: "request \<Rightarrow> backend \<Rightarrow> bool" where
  "case_found req b =
     (if action req = str ''security_audit'' then True
      else if truthy (opt_str (caseId req))
      then failing b (str ''cases'') = None
           \<and> length (filter (matches (str ''id'') (opt_str (caseId req)))
                 (tables b (str ''cases''))) = 1
      else True)"

definition model_answers :: "bool \<Rightarrow> gateway \<Rightarrow> bool" where
  "model_answers streaming gw =
     (fetch_rejects gw = None \<and> ok gw
      \<and> (if streaming then read_rejects gw = None
          else (case body gw of Inl m \<Rightarrow> False | Inr d \<Rightarrow> has_message d)))"

section \<open>Sample data\<close>

text \<open>
  A backend with empty tables where no call fails, every edge function answers \<^verbatim>\<open>null\<close>
  and the model gateway answers with the given chunks (streaming) and completion.
\<close>

definition sample_backend :: "jstring list \<Rightarrow> json \<Rightarrow> backend" where
  "sample_backend cs completion =
     \<lparr>tables = (\<lambda>t. []), next_id = 0, failing = (\<lambda>t. None),
      edge_functions = (\<lambda>f request. JNull),
      ai = \<lparr>fetch_rejects = None, ok = True, status = 200, chunks = cs,
            read_rejects = None, body = Inr completion\<rparr>\<rparr>"

text \<open>A tool call with the given id, tool name and argument text.\<close>

definition tool_call :: "string \<Rightarrow> string \<Rightarrow> string \<Rightarrow> json" where
  "tool_call i n a =
     JObj [(str ''id'', lit i),
           (str ''type'', lit ''function''),
           (str ''function'', JObj [(str ''name'', lit n), (str ''arguments'', lit a)])]"

text \<open>A backend with one case, its master record and no draft; arguments for the draft tool.\<close>

definition sample_case_backend :: "jstring list \<Rightarrow> json \<Rightarrow> backend" where
  "sample_case_backend cs completion =
     (sample_backend cs completion)
       \<lparr>tables := (\<lambda>t. if t = str ''master_table''
                        then [JObj [(str ''id'', JNum 1), (str ''case_id'', lit ''C1''),
                                    (str ''applicant_first_name'', lit ''Jan'')]]
                        else if t = str ''cases''
                        then [JObj [(str ''id'', lit ''C1''), (str ''client_name'', lit ''Jan Kowalski'')]]
                        else []),
         next_id := 1\<rparr>"

definition sample_oby_args :: json where
  "sample_oby_args =
     JObj [(str ''caseId'', lit ''C1''),
           (str ''autoPopulatedFields'', JArr [lit ''applicant_first_name''])]"

definition sample_oby_args2 :: json where
  "sample_oby_args2 =
     JObj [(str ''caseId'', lit ''C1''),
           (str ''autoPopulatedFields'', JArr [lit ''applicant_first_name'', lit ''father_last_name''])]"


text \<open>
  A streaming request for the sample case, the chunks of a streamed reply (the second
  record is cut in two) and the same reply as a completion.
\<close>

definition sample_request :: request where
  "sample_request =
     \<lparr>caseId = Some (str ''C1''), prompt = str ''Hello'', action = str ''comprehensive'',
      conversationId = None, stream = True\<rparr>"

definition sample_chunks :: "jstring list" where
  "sample_chunks =
     [str ''data: {\"choices\":[{\"delta\":{\"content\":\"Hi \"}}]}\<newline>\<newline>data: {\"choi'',
      str ''ces\":[{\"delta\":{\"content\":\"there\"}}]}\<newline>\<newline>data: [DONE]\<newline>\<newline>'']"

definition sample_completion :: json where
  "sample_completion =
     JObj [(str ''choices'',
            JArr [JObj [(str ''message'',
                         JObj [(str ''role'', lit ''assistant''),
                               (str ''content'', lit ''Hi there'')])]])]"

section \<open>Properties of the Stream Relay\<close>

lemma split_from_nonempty: "split_from cur s \<noteq> []"
  by (induction s arbitrary: cur) auto

lemma split_nl_nonempty: "split_nl s \<noteq> []"
  by (simp add: split_nl_def split_from_nonempty)

lemma split_from_append:
  "split_from cur (x @ y) = butlast (split_from cur x) @ split_from (last (split_from cur x)) y"
  by (induction x arbitrary: cur) (auto simp: split_from_nonempty)

lemma split_from_prefix: "10 \<notin> set p \<Longrightarrow> split_from cur (p @ s) = split_from (cur @ p) s"
  by (induction p arbitrary: cur) auto

lemma last_split_from_no_nl: "10 \<notin> set cur \<Longrightarrow> 10 \<notin> set (last (split_from cur s))"
  by (induction s arbitrary: cur) (auto simp: split_from_nonempty)

lemma last_split_nl_no_nl: "10 \<notin> set (last (split_nl s))"
  by (simp add: split_nl_def last_split_from_no_nl)

lemma split_nl_no_nl: "10 \<notin> set s \<Longrightarrow> split_nl s = [s]"
  using split_from_prefix [of s "[]" "[]"] by (simp add: split_nl_def)

lemma split_nl_append:
  "split_nl (x @ y) = butlast (split_nl x) @ split_nl (last (split_nl x) @ y)"
proof -
  have "10 \<notin> set (last (split_nl x))"
    by (rule last_split_nl_no_nl)
  then have "split_from [] (last (split_nl x) @ y) = split_from ([] @ last (split_nl x)) y"
    by (rule split_from_prefix)
  then have "split_from (last (split_nl x)) y = split_nl (last (split_nl x) @ y)"
    by (simp add: split_nl_def)
  then show ?thesis
    using split_from_append [of "[]" x y] by (simp add: split_nl_def)
qed

lemma process_line_buffer:
  "process_line parse (st\<lparr>buffer := b\<rparr>) l = (process_line parse st l)\<lparr>buffer := b\<rparr>"
  by (simp add: process_line_def frame_def append_content_def Let_def
      split: sum.splits option.splits)

lemma foldl_process_line_buffer:
  "foldl (process_line parse) (st\<lparr>buffer := b\<rparr>) ls
     = (foldl (process_line parse) st ls)\<lparr>buffer := b\<rparr>"
  by (induction ls arbitrary: st) (simp_all add: process_line_buffer)

lemma process_line_keeps_buffer: "buffer (process_line parse st l) = buffer st"
  by (simp add: process_line_def frame_def append_content_def Let_def
      split: sum.splits option.splits)

lemma foldl_process_line_keeps_buffer: "buffer (foldl (process_line parse) st ls) = buffer st"
  by (induction ls arbitrary: st) (simp_all add: process_line_keeps_buffer)

lemma read_chunk_append:
  "read_chunk parse (read_chunk parse st a) b = read_chunk parse st (a @ b)"
proof -
  let ?sa = "split_nl (buffer st @ a)"
  have s: "split_nl (buffer st @ a @ b) = butlast ?sa @ split_nl (last ?sa @ b)"
    using split_nl_append [of "buffer st @ a" b] by simp
  have ne: "split_nl (last ?sa @ b) \<noteq> []" by (rule split_nl_nonempty)
  show ?thesis
    by (simp add: read_chunk_def Let_def s ne butlast_append foldl_process_line_buffer
        foldl_process_line_keeps_buffer)
qed

lemma read_chunk_empty: "10 \<notin> set (buffer st) \<Longrightarrow> read_chunk parse st [] = st"
  by (simp add: read_chunk_def split_nl_no_nl)

lemma read_chunk_buffer_no_nl: "10 \<notin> set (buffer (read_chunk parse st v))"
  by (simp add: read_chunk_def Let_def foldl_process_line_keeps_buffer last_split_nl_no_nl)

lemma read_all_concat:
  "10 \<notin> set (buffer st) \<Longrightarrow> read_all parse st cs = read_chunk parse st (concat cs)"
proof (induction cs arbitrary: st)
  case Nil
  then show ?case by (simp add: read_all_def read_chunk_empty)
next
  case (Cons c cs)
  have "read_all parse st (c # cs) = read_all parse (read_chunk parse st c) cs"
    by (simp add: read_all_def)
  also have "\<dots> = read_chunk parse (read_chunk parse st c) (concat cs)"
    by (rule Cons.IH) (rule read_chunk_buffer_no_nl)
  also have "\<dots> = read_chunk parse st (concat (c # cs))"
    by (simp add: read_chunk_append)
  finally show ?case .
qed

lemma split_nl_line: "10 \<notin> set l \<Longrightarrow> split_nl (l @ [10]) = [l, []]"
proof -
  assume "10 \<notin> set l"
  then have "split_from [] (l @ [10]) = split_from ([] @ l) [10]"
    by (rule split_from_prefix)
  then show ?thesis by (simp add: split_nl_def)
qed

lemma last_split_nl_ends_nl:
  assumes "t \<noteq> []" and "last t = 10"
  shows "last (split_nl t) = []"
proof -
  let ?r = "last (split_nl (butlast t))"
  from assms have t: "t = butlast t @ [10]"
    by (metis append_butlast_last_id)
  have "split_nl (butlast t @ [10]) = butlast (split_nl (butlast t)) @ split_nl (?r @ [10])"
    by (rule split_nl_append)
  moreover have "split_nl (?r @ [10]) = [?r, []]"
    by (rule split_nl_line) (rule last_split_nl_no_nl)
  ultimately have "last (split_nl (butlast t @ [10])) = []" by simp
  with t show ?thesis by simp
qed

lemma buffer_update_same: "buffer r = b \<Longrightarrow> r\<lparr>buffer := b\<rparr> = r"
  by (cases r) simp

lemma read_chunk_line_start:
  assumes "buffer st = []" and "t = [] \<or> last t = 10"
  shows "buffer (read_chunk parse st t) = []"
proof (cases "t = []")
  case True
  with assms show ?thesis by (simp add: read_chunk_empty)
next
  case False
  with assms have "last (split_nl t) = []" by (simp add: last_split_nl_ends_nl)
  with assms show ?thesis
    by (simp add: read_chunk_def Let_def foldl_process_line_keeps_buffer)
qed

lemma read_chunk_one_line:
  assumes "buffer st = []" and "10 \<notin> set l"
  shows "read_chunk parse st (l @ [10]) = process_line parse st l"
proof -
  have "split_nl (l @ [10]) = [l, []]"
    using assms(2) by (rule split_nl_line)
  with assms(1) show ?thesis
    by (simp add: read_chunk_def buffer_update_same)
qed

lemma skipped_line:
  assumes skip: "\<And>st. process_line parse st l = st"
      and l: "10 \<notin> set l"
      and t1: "t1 = [] \<or> last t1 = 10"
      and st: "buffer st = []"
  shows "read_chunk parse st (t1 @ l @ [10] @ t2) = read_chunk parse st (t1 @ t2)"
proof -
  let ?s1 = "read_chunk parse st t1"
  have b1: "buffer ?s1 = []" using st t1 by (rule read_chunk_line_start)
  have "read_chunk parse st (t1 @ l @ [10] @ t2)
          = read_chunk parse (read_chunk parse ?s1 (l @ [10])) t2"
    by (simp add: read_chunk_append)
  also have "read_chunk parse ?s1 (l @ [10]) = ?s1"
    using read_chunk_one_line [OF b1 l] skip by simp
  also have "read_chunk parse ?s1 t2 = read_chunk parse st (t1 @ t2)"
    by (simp add: read_chunk_append)
  finally show ?thesis .
qed

lemma relay_init_buffer: "buffer (relay_init q) = []"
  by (simp add: relay_init_def)

text \<open>
  C3. Chunk decoding is split-invariant: however the upstream text is cut into chunks, the
  relay ends in the same state, that is with the same forwarded events in the same order,
  the same accumulated \<open>fullContent\<close> and the same accumulated \<open>toolCalls\<close> (and the same
  residue in the buffer). Feeding each complete line as one chunk is one such cut.
\<close>

theorem relay_split_invariant:
  assumes "concat cs = concat ds"
  shows "read_all parse (relay_init q) cs = read_all parse (relay_init q) ds"
  using assms by (simp add: read_all_concat relay_init_buffer)

theorem relay_split_invariant_witness:
  "concat [str ''data: {\"choices\":[{\"del'', str ''ta\":{\"content\":\"Hi\"}}]}\<newline>'']
     = concat [str ''data: {\"choices\":[{\"delta\":{\"content\":\"Hi\"}}]}\<newline>'']
   \<and> read_all reference_parse (relay_init [])
         [str ''data: {\"choices\":[{\"del'', str ''ta\":{\"content\":\"Hi\"}}]}\<newline>'']
       = read_all reference_parse (relay_init [])
           [str ''data: {\"choices\":[{\"delta\":{\"content\":\"Hi\"}}]}\<newline>'']
   \<and> read_all reference_parse (relay_init [])
         [str ''data: {\"choices\":[{\"delta\":{\"content\":\"Hi\"}}]}\<newline>'']
       = \<lparr>buffer = [], fullContent = str ''Hi'', toolCalls = [],
          queue = [DeltaEvent (lit ''Hi'')]\<rparr>"
proof -
  have h: "concat [str ''data: {\"choices\":[{\"del'', str ''ta\":{\"content\":\"Hi\"}}]}\<newline>'']
     = concat [str ''data: {\"choices\":[{\"delta\":{\"content\":\"Hi\"}}]}\<newline>'']"
    by (simp add: str_def)
  have e: "read_all reference_parse (relay_init [])
         [str ''data: {\"choices\":[{\"delta\":{\"content\":\"Hi\"}}]}\<newline>'']
       = \<lparr>buffer = [], fullContent = str ''Hi'', toolCalls = [],
          queue = [DeltaEvent (lit ''Hi'')]\<rparr>"
    by code_simp
  show ?thesis
    by (intro conjI) (rule h, rule relay_split_invariant [OF h], rule e)
qed

text \<open>
  C7. A \<^verbatim>\<open>data:\<close> line whose payload \<^verbatim>\<open>JSON.parse\<close> rejects is skipped: the relay ends
  in the same state as on the stream without that line, so every delta before and after
  it is forwarded, in order, and nothing is aborted. \<open>pre\<close> is the text before the line
  (empty, or ending in a line feed), \<open>post\<close> the text after it.
\<close>

theorem malformed_line_skipped:
  assumes "pre = [] \<or> last pre = 10"
      and "10 \<notin> set bad"
      and "startsWith bad (str ''data: '')"
      and "parse (trim (slice 6 bad)) = Inl e"
      and "concat cs = pre @ bad @ [10] @ post"
      and "concat ds = pre @ post"
  shows "read_all parse (relay_init q) cs = read_all parse (relay_init q) ds"
proof -
  have skip: "process_line parse st bad = st" for st
    using assms(3,4) by (simp add: process_line_def Let_def)
  have "read_chunk parse (relay_init q) (pre @ bad @ [10] @ post)
          = read_chunk parse (relay_init q) (pre @ post)"
    using skip assms(2,1) relay_init_buffer by (rule skipped_line)
  with assms(5,6) show ?thesis
    by (simp add: read_all_concat relay_init_buffer)
qed

theorem malformed_line_skipped_witness:
  "(str ''data: {\"choices\":[{\"delta\":{\"content\":\"A\"}}]}\<newline>'' = []
      \<or> last (str ''data: {\"choices\":[{\"delta\":{\"content\":\"A\"}}]}\<newline>'') = 10)
   \<and> 10 \<notin> set (str ''data: {\"choices\":[{\"delta\":'')
   \<and> startsWith (str ''data: {\"choices\":[{\"delta\":'') (str ''data: '')
   \<and> reference_parse (trim (slice 6 (str ''data: {\"choices\":[{\"delta\":'')))
         = Inl (str ''Unexpected token in JSON'')
   \<and> read_all reference_parse (relay_init [])
         [str ''data: {\"choices\":[{\"delta\":{\"content\":\"A\"}}]}\<newline>''
          @ str ''data: {\"choices\":[{\"delta\":'' @ [10]
          @ str ''data: {\"choices\":[{\"delta\":{\"content\":\"B\"}}]}\<newline>'']
       = read_all reference_parse (relay_init [])
           [str ''data: {\"choices\":[{\"delta\":{\"content\":\"A\"}}]}\<newline>''
            @ str ''data: {\"choices\":[{\"delta\":{\"content\":\"B\"}}]}\<newline>'']
   \<and> queue (read_all reference_parse (relay_init [])
         [str ''data: {\"choices\":[{\"delta\":{\"content\":\"A\"}}]}\<newline>''
          @ str ''data: {\"choices\":[{\"delta\":{\"content\":\"B\"}}]}\<newline>''])
       = [DeltaEvent (lit ''A''), DeltaEvent (lit ''B'')]"
proof -
  let ?t1 = "str ''data: {\"choices\":[{\"delta\":{\"content\":\"A\"}}]}\<newline>''"
  let ?bad = "str ''data: {\"choices\":[{\"delta\":''"
  let ?t2 = "str ''data: {\"choices\":[{\"delta\":{\"content\":\"B\"}}]}\<newline>''"
  have h1: "?t1 = [] \<or> last ?t1 = 10" by (simp add: str_def)
  have h2: "10 \<notin> set ?bad" by (simp add: str_def)
  have h3: "startsWith ?bad (str ''data: '')" by (simp add: str_def startsWith_def)
  have h4: "reference_parse (trim (slice 6 ?bad)) = Inl (str ''Unexpected token in JSON'')"
    by code_simp
  have h5: "concat [?t1 @ ?bad @ [10] @ ?t2] = ?t1 @ ?bad @ [10] @ ?t2" by simp
  have h6: "concat [?t1 @ ?t2] = ?t1 @ ?t2" by simp
  have e: "queue (read_all reference_parse (relay_init []) [?t1 @ ?t2])
       = [DeltaEvent (lit ''A''), DeltaEvent (lit ''B'')]"
    by code_simp
  show ?thesis
    by (intro conjI)
       (rule h1, rule h2, rule h3, rule h4,
        rule malformed_line_skipped
          [where pre = ?t1 and bad = ?bad and post = ?t2 and q = "[]"
             and cs = "[?t1 @ ?bad @ [10] @ ?t2]" and ds = "[?t1 @ ?t2]"
             and parse = reference_parse,
           OF h1 h2 h3 h4 h5 h6],
        rule e)
qed

text \<open>
  C4, as the code has it. A \<^verbatim>\<open>data: [DONE]\<close> line is skipped like any line that carries
  nothing: it forwards no event and changes no variable, the relay goes on reading, and
  the lines after it are processed as if the sentinel had not been there. The relay keeps
  no record of having seen it.
\<close>

theorem done_line_skipped:
  assumes "pre = [] \<or> last pre = 10"
      and "10 \<notin> set line"
      and "startsWith line (str ''data: '')"
      and "trim (slice 6 line) = str ''[DONE]''"
      and "concat cs = pre @ line @ [10] @ post"
      and "concat ds = pre @ post"
  shows "read_all parse (relay_init q) cs = read_all parse (relay_init q) ds"
proof -
  have skip: "process_line parse st line = st" for st
    using assms(3,4) by (simp add: process_line_def Let_def)
  have "read_chunk parse (relay_init q) (pre @ line @ [10] @ post)
          = read_chunk parse (relay_init q) (pre @ post)"
    using skip assms(2,1) relay_init_buffer by (rule skipped_line)
  with assms(5,6) show ?thesis
    by (simp add: read_all_concat relay_init_buffer)
qed

theorem done_line_skipped_witness:
  "(([]::jstring) = [] \<or> last ([]::jstring) = 10)
   \<and> 10 \<notin> set (str ''data: [DONE]'')
   \<and> startsWith (str ''data: [DONE]'') (str ''data: '')
   \<and> trim (slice 6 (str ''data: [DONE]'')) = str ''[DONE]''
   \<and> read_all reference_parse (relay_init [])
         [str ''data: [DONE]'' @ [10]
          @ str ''data: {\"choices\":[{\"delta\":{\"content\":\"x\"}}]}\<newline>'']
       = read_all reference_parse (relay_init [])
           [str ''data: {\"choices\":[{\"delta\":{\"content\":\"x\"}}]}\<newline>'']"
proof -
  let ?line = "str ''data: [DONE]''"
  let ?t2 = "str ''data: {\"choices\":[{\"delta\":{\"content\":\"x\"}}]}\<newline>''"
  have h1: "([]::jstring) = [] \<or> last ([]::jstring) = 10" by simp
  have h2: "10 \<notin> set ?line" by (simp add: str_def)
  have h3: "startsWith ?line (str ''data: '')" by (simp add: str_def startsWith_def)
  have h4: "trim (slice 6 ?line) = str ''[DONE]''" by code_simp
  have h5: "concat [?line @ [10] @ ?t2] = [] @ ?line @ [10] @ ?t2" by simp
  have h6: "concat [?t2] = [] @ ?t2" by simp
  show ?thesis
    by (intro conjI)
       (rule h1, rule h2, rule h3, rule h4,
        rule done_line_skipped
          [where pre = "[]" and line = ?line and post = ?t2 and q = "[]"
             and cs = "[?line @ [10] @ ?t2]" and ds = "[?t2]" and parse = reference_parse,
           OF h1 h2 h3 h4 h5 h6])
qed

text \<open>
  C4, as the claim states it, fails: after the chunk with the sentinel nothing has been
  forwarded, and the content delta of the next chunk is forwarded all the same.
\<close>

theorem done_sentinel_counterexample:
  "deltas (queue (read_all reference_parse (relay_init []) [str ''data: [DONE]\<newline>''])) = []
   \<and> deltas (queue (read_all reference_parse (relay_init [])
        [str ''data: [DONE]\<newline>'',
         str ''data: {\"choices\":[{\"delta\":{\"content\":\"x\"}}]}\<newline>'']))
       = [lit ''x'']"
  by code_simp

lemma deltas_append: "deltas (xs @ ys) = deltas xs @ deltas ys"
  by (induction xs rule: deltas.induct) auto

lemma those_snoc:
  "those (xs @ [x]) =
     (case those xs of
        None \<Rightarrow> None
      | Some a \<Rightarrow> (case x of None \<Rightarrow> None | Some v \<Rightarrow> Some (a @ [v])))"
  by (induction xs) (auto split: option.splits)

lemma append_content_agrees:
  "content_agrees st \<Longrightarrow> append_content st c = Some st1 \<Longrightarrow> content_agrees st1"
  by (auto simp: content_agrees_def append_content_def deltas_append those_snoc
      split: option.splits if_splits)

lemma toolCalls_update_agrees: "content_agrees (st\<lparr>toolCalls := x\<rparr>) = content_agrees st"
  by (simp add: content_agrees_def split: option.splits)

lemma frame_agrees: "content_agrees st \<Longrightarrow> content_agrees (frame st p)"
  by (auto simp: frame_def Let_def toolCalls_update_agrees dest: append_content_agrees
      split: option.splits)

lemma process_line_agrees: "content_agrees st \<Longrightarrow> content_agrees (process_line parse st l)"
  by (auto simp: process_line_def Let_def frame_agrees split: sum.splits)

lemma foldl_process_line_agrees:
  "content_agrees st \<Longrightarrow> content_agrees (foldl (process_line parse) st ls)"
  by (induction ls arbitrary: st) (simp_all add: process_line_agrees)

lemma buffer_update_agrees: "content_agrees (st\<lparr>buffer := b\<rparr>) = content_agrees st"
  by (simp add: content_agrees_def split: option.splits)

lemma read_chunk_agrees: "content_agrees st \<Longrightarrow> content_agrees (read_chunk parse st v)"
  by (simp add: read_chunk_def Let_def foldl_process_line_agrees buffer_update_agrees)

lemma read_all_agrees: "content_agrees st \<Longrightarrow> content_agrees (read_all parse st cs)"
  unfolding read_all_def by (induction cs arbitrary: st) (simp_all add: read_chunk_agrees)

section \<open>Properties of computations\<close>

lemma run_after: "run (after m f) b = (case run m b of (r, b') \<Rightarrow> run (f r) b')"
  by (induction m arbitrary: b) simp_all

lemma run_bnd:
  "run (bnd m f) b =
     (case run m b of (Return x, b') \<Rightarrow> run (f x) b' | (Throw e, b') \<Rightarrow> (Throw e, b'))"
  by (simp add: bnd_def run_after split: prod.splits outcome.splits)

lemma run_try_catch:
  "run (try_catch m h) b =
     (case run m b of (Return x, b') \<Rightarrow> (Return x, b') | (Throw e, b') \<Rightarrow> run (h e) b')"
  by (simp add: try_catch_def run_after split: prod.splits outcome.splits)

lemma run_ret: "run (ret x) b = (Return x, b)"
  by (simp add: ret_def)

lemma run_throw: "run (throw e) b = (Throw e, b)"
  by (simp add: throw_def)

lemma run_await: "run (await op) b = op b"
  by (simp add: await_def)

lemma run_call: "run (call t query) b = serve_call t query b"
  by (simp add: call_def run_await)

lemma bnd_ret: "bnd (ret x) f = f x"
  by (simp add: bnd_def ret_def)

lemma bnd_throw: "bnd (throw e) f = throw e"
  by (simp add: bnd_def throw_def)

lemma try_catch_ret: "try_catch (ret x) h = ret x"
  by (simp add: try_catch_def ret_def)

lemma try_catch_throw: "try_catch (throw e) h = h e"
  by (simp add: try_catch_def throw_def)

lemma bnd_Done: "bnd (Done (Return x)) f = f x" "bnd (Done (Throw e)) f = Done (Throw e)"
  by (simp_all add: bnd_def)

lemma try_catch_Done:
  "try_catch (Done (Return x)) h = Done (Return x)" "try_catch (Done (Throw e)) h = h e"
  by (simp_all add: try_catch_def)

lemmas pure_simps = bnd_ret bnd_throw try_catch_ret try_catch_throw bnd_Done try_catch_Done

lemma unchanged_refl: "unchanged T b b"
  by (simp add: unchanged_def)

lemma unchanged_trans: "unchanged T b b1 \<Longrightarrow> unchanged T b1 b2 \<Longrightarrow> unchanged T b b2"
  by (simp add: unchanged_def)

lemma keeps_run: "keeps T m \<Longrightarrow> unchanged T b (snd (run m b))"
proof (induction m arbitrary: b)
  case (Done r)
  show ?case by (simp add: unchanged_refl)
next
  case (Await u k)
  from Await.prems have 1: "unchanged T b (u b)" and 2: "keeps T (k b)" by simp_all
  have "unchanged T (u b) (snd (run (k b) (u b)))"
    using 2 by (rule Await.IH [OF rangeI])
  with 1 show ?case by (simp add: unchanged_trans)
qed

named_theorems keeps_intros

lemma keeps_after:
  assumes "keeps T m" and "\<And>r. keeps T (f r)"
  shows "keeps T (after m f)"
  using assms(1) by (induction m) (simp_all add: assms(2))

lemma keeps_ret [keeps_intros]: "keeps T (ret x)"
  by (simp add: ret_def)

lemma keeps_throw [keeps_intros]: "keeps T (throw e)"
  by (simp add: throw_def)

lemma keeps_bnd [keeps_intros]:
  assumes "keeps T m" and "\<And>x. keeps T (f x)"
  shows "keeps T (bnd m f)"
  unfolding bnd_def using assms(1) by (rule keeps_after) (simp add: assms(2) split: outcome.splits)

lemma keeps_try_catch [keeps_intros]:
  assumes "keeps T m" and "\<And>e. keeps T (h e)"
  shows "keeps T (try_catch m h)"
  unfolding try_catch_def using assms(1)
  by (rule keeps_after) (simp add: assms(2) split: outcome.splits)

lemma keeps_if [keeps_intros]:
  "(c \<Longrightarrow> keeps T a) \<Longrightarrow> (\<not> c \<Longrightarrow> keeps T b) \<Longrightarrow> keeps T (if c then a else b)"
  by simp

lemma keeps_let [keeps_intros]: "keeps T (f x) \<Longrightarrow> keeps T (Let x f)"
  by simp

lemma keeps_await:
  assumes "\<And>b. unchanged T b (snd (op b))"
  shows "keeps T (await op)"
  by (simp add: await_def assms)

lemma keeps_call:
  assumes "\<And>b. unchanged T b (snd (query b))"
  shows "keeps T (call t query)"
  unfolding call_def
proof (rule keeps_await)
  fix b
  from assms [of b] show "unchanged T b (snd (serve_call t query b))"
    by (auto simp: serve_call_def unchanged_refl split: option.splits failure.splits prod.splits)
qed

lemma keeps_insert_rows [keeps_intros]: "t \<in> T \<Longrightarrow> keeps T (insert_rows t rows)"
  unfolding insert_rows_def by (rule keeps_call) (auto simp: unchanged_def)

lemma keeps_insert_returning [keeps_intros]: "t \<in> T \<Longrightarrow> keeps T (insert_returning t row)"
  unfolding insert_returning_def by (rule keeps_call) (auto simp: unchanged_def)

lemma keeps_update_where [keeps_intros]: "t \<in> T \<Longrightarrow> keeps T (update_where t p c v)"
  by (cases p) (auto intro!: keeps_call simp: unchanged_def)

lemma keeps_select_single [keeps_intros]: "keeps T (select_single t c v)"
  unfolding select_single_def by (rule keeps_call) (auto simp: unchanged_def)

lemma keeps_select_maybeSingle [keeps_intros]: "keeps T (select_maybeSingle t c v)"
  unfolding select_maybeSingle_def by (rule keeps_call) (auto simp: unchanged_def)

lemma keeps_select_limit [keeps_intros]: "keeps T (select_limit t c v n)"
  unfolding select_limit_def by (rule keeps_call) (auto simp: unchanged_def)

lemma keeps_functions_invoke [keeps_intros]: "keeps T (functions_invoke f request)"
  unfolding functions_invoke_def by (rule keeps_call) (auto simp: unchanged_def)

lemma keeps_read [keeps_intros]: "keeps T (read v k)"
  by (simp add: read_def keeps_ret keeps_throw)

lemma keeps_read_index0 [keeps_intros]: "keeps T (read_index0 v)"
  by (simp add: read_index0_def keeps_ret keeps_throw)

lemma keeps_template [keeps_intros]: "keeps T (template ps)"
  by (simp add: template_def keeps_ret keeps_throw split: option.splits)

lemma keeps_call_join [keeps_intros]: "keeps T (call_join v k sep)"
  by (cases v) (simp_all add: keeps_ret keeps_throw split: option.splits)

lemma keeps_call_toLowerCase [keeps_intros]: "keeps T (call_toLowerCase v k)"
  by (cases v) (simp_all add: keeps_ret keeps_throw)

lemma keeps_object_keys [keeps_intros]: "keeps T (object_keys v)"
  by (cases v) (simp_all add: keeps_ret keeps_throw)

lemma keeps_call_map [keeps_intros]: "keeps T (call_map v)"
  by (cases v) (simp_all add: keeps_ret keeps_throw)

lemma keeps_call_substring [keeps_intros]: "keeps T (call_substring v)"
  by (cases v) (simp_all add: keeps_ret keeps_throw)

lemma keeps_JSON_parse [keeps_intros]: "keeps T (JSON_parse parse v)"
  by (simp add: JSON_parse_def keeps_ret keeps_throw split: sum.splits option.splits)

lemma keeps_failed [keeps_intros]: "keeps T (failed e)"
  unfolding failed_def by (intro keeps_intros)

lemma keeps_generate_poa_pdf: "keeps tool_tables (generate_poa_pdf args uid)"
  unfolding generate_poa_pdf_def by (intro keeps_intros) (simp_all add: tool_tables_def)

lemma keeps_create_task: "keeps tool_tables (create_task args uid)"
  unfolding create_task_def by (intro keeps_intros) (simp_all add: tool_tables_def)

lemma keeps_trigger_ocr: "keeps tool_tables (trigger_ocr args uid)"
  unfolding trigger_ocr_def by (intro keeps_intros)

lemma keeps_update_master_data: "keeps tool_tables (update_master_data args uid)"
  unfolding update_master_data_def by (intro keeps_intros) (simp_all add: tool_tables_def)

lemma keeps_generate_archive_request: "keeps tool_tables (generate_archive_request args uid)"
  unfolding generate_archive_request_def by (intro keeps_intros) (simp_all add: tool_tables_def)

lemma keeps_create_oby_draft: "keeps tool_tables (create_oby_draft args uid)"
  unfolding create_oby_draft_def by (intro keeps_intros) (simp_all add: tool_tables_def)

lemma keeps_draft_wsc_response: "keeps tool_tables (draft_wsc_response args uid)"
  unfolding draft_wsc_response_def by (intro keeps_intros) (simp_all add: tool_tables_def)

lemma keeps_generate_civil_acts_request:
  "keeps tool_tables (generate_civil_acts_request args uid)"
  unfolding generate_civil_acts_request_def
  by (intro keeps_intros) (simp_all add: tool_tables_def)

lemma keeps_switch_tool: "keeps tool_tables (switch_tool nm args uid)"
  unfolding switch_tool_def
  by (intro keeps_intros keeps_generate_poa_pdf keeps_create_task keeps_trigger_ocr
      keeps_update_master_data keeps_generate_archive_request keeps_create_oby_draft
      keeps_draft_wsc_response keeps_generate_civil_acts_request)

lemma keeps_executeSingleTool: "keeps tool_tables (executeSingleTool parse toolCall cid uid)"
  unfolding executeSingleTool_def by (intro keeps_intros keeps_switch_tool)

lemma keeps_in_order: "list_all (keeps T) ts \<Longrightarrow> keeps T (in_order ts)"
proof (induction ts)
  case Nil
  show ?case by (simp add: keeps_ret)
next
  case (Cons t ts)
  then have t: "keeps T t" and ts: "keeps T (in_order ts)" by simp_all
  show ?case
    unfolding in_order.simps using t
    by (rule keeps_after) (intro keeps_bnd ts keeps_ret)
qed

lemma keeps_served: "list_all (keeps T) ts \<Longrightarrow> keeps T (served sched first ts)"
proof (induction sched arbitrary: first ts)
  case Nil
  have "keeps T (case first of None \<Rightarrow> Done (collect rs) | Some e \<Rightarrow> throw e)" for rs :: "'a outcome list"
    by (simp add: keeps_throw split: option.splits)
  with Nil show ?case by (simp add: keeps_bnd keeps_in_order)
next
  case (Cons i sched)
  show ?case
  proof (cases "i < length ts")
    case False
    with Cons show ?thesis by simp
  next
    case True
    show ?thesis
    proof (cases "ts ! i")
      case (Done r)
      with True Cons show ?thesis by simp
    next
      case (Await u k)
      from Cons.prems True have "keeps T (ts ! i)" by (simp add: list_all_length)
      with Await have u: "\<And>b. unchanged T b (u b)" and k: "\<And>b. keeps T (k b)" by simp_all
      have "list_all (keeps T) (ts[i := k b])" for b
        using Cons.prems k [of b] by (auto simp: list_all_iff dest: set_update_subset_insert [THEN subsetD])
      then have "keeps T (served sched (settle first (k b)) (ts[i := k b]))" for b
        by (rule Cons.IH)
      with True Await u show ?thesis by simp
    qed
  qed
qed

lemma keeps_executeToolsParallel:
  "keeps tool_tables (executeToolsParallel parse sched calls cid uid)"
  unfolding executeToolsParallel_def promise_all_def
  by (rule keeps_served) (simp add: list_all_iff keeps_executeSingleTool)

subsection \<open>How a computation ends\<close>

lemma ends_top: "ends I (\<lambda>r. True) m"
  by (induction m) simp_all

lemma ends_ret: "ends I P (ret x) = P (Return x)"
  by (simp add: ret_def)

lemma ends_throw: "ends I P (throw e) = P (Throw e)"
  by (simp add: throw_def)

lemma ends_mono: "ends I P m \<Longrightarrow> (\<And>r. P r \<Longrightarrow> Q r) \<Longrightarrow> ends I Q m"
  by (induction m) auto

lemma ends_after: "ends I (\<lambda>r. ends I P (f r)) m \<Longrightarrow> ends I P (after m f)"
  by (induction m) auto

lemma ends_bnd:
  "ends I (\<lambda>r. case r of Return x \<Rightarrow> ends I P (f x) | Throw e \<Rightarrow> P (Throw e)) m
     \<Longrightarrow> ends I P (bnd m f)"
  unfolding bnd_def
  by (rule ends_after) (erule ends_mono, simp split: outcome.splits)

lemma ends_try_catch:
  "ends I (\<lambda>r. case r of Return x \<Rightarrow> P (Return x) | Throw e \<Rightarrow> ends I P (h e)) m
     \<Longrightarrow> ends I P (try_catch m h)"
  unfolding try_catch_def
  by (rule ends_after) (erule ends_mono, simp split: outcome.splits)

lemma ends_run:
  assumes "ends I P m" and "keeps T m" and "\<forall>b b'. unchanged T b b' \<longrightarrow> I b \<longrightarrow> I b'"
      and "I b"
  shows "P (fst (run m b))"
  using assms(1,2,4)
proof (induction m arbitrary: b)
  case (Done r)
  then show ?case by simp
next
  case (Await u k)
  from Await.prems have e: "ends I P (k b)" and kp: "keeps T (k b)"
    and un: "unchanged T b (u b)"
    by simp_all
  from un Await.prems(3) assms(3) have "I (u b)" by blast
  with e kp have "P (fst (run (k b) (u b)))" by (rule Await.IH [OF rangeI])
  then show ?case by simp
qed

section \<open>Properties of the Tool Executor\<close>

lemma in_order_ends:
  assumes inv: "\<forall>b b'. unchanged T b b' \<longrightarrow> I b \<longrightarrow> I b'"
  shows "list_all2 (ends I) Ps ts \<Longrightarrow> list_all (keeps T) ts \<Longrightarrow> I b \<Longrightarrow>
         \<exists>rs b'. run (in_order ts) b = (Return rs, b') \<and> list_all2 (\<lambda>P r. P r) Ps rs
                  \<and> unchanged T b b'"
proof (induction ts arbitrary: Ps b)
  case Nil
  then show ?case by (simp add: run_ret unchanged_refl)
next
  case (Cons t ts)
  from Cons.prems(1) obtain P Ps' where Ps: "Ps = P # Ps'" and P: "ends I P t"
    and Ps': "list_all2 (ends I) Ps' ts"
    by (auto simp: list_all2_Cons2)
  from Cons.prems(2) have kt: "keeps T t" and kts: "list_all (keeps T) ts" by simp_all
  obtain r b1 where r: "run t b = (r, b1)" by (cases "run t b")
  from ends_run [OF P kt inv Cons.prems(3)] r have Pr: "P r" by simp
  from keeps_run [OF kt, of b] r have u1: "unchanged T b b1" by simp
  from u1 Cons.prems(3) inv have "I b1" by blast
  from Cons.IH [OF Ps' kts this] obtain rs b2
    where rs: "run (in_order ts) b1 = (Return rs, b2)" and all: "list_all2 (\<lambda>P r. P r) Ps' rs"
      and u2: "unchanged T b1 b2"
    by blast
  have "run (in_order (t # ts)) b = (Return (r # rs), b2)"
    by (simp add: run_after r run_bnd rs run_ret)
  with Ps Pr all u1 u2 show ?case by (auto intro: unchanged_trans)
qed

lemma collect_returns:
  "list_all2 (\<lambda>P r. P r) Ps rs \<Longrightarrow> \<forall>P \<in> set Ps. \<forall>e. \<not> P (Throw e) \<Longrightarrow>
   \<exists>xs. collect rs = Return xs \<and> list_all2 (\<lambda>P x. P (Return x)) Ps xs"
proof (induction Ps arbitrary: rs)
  case Nil
  then show ?case by simp
next
  case (Cons P Ps)
  from Cons.prems(1) obtain r rs' where rs: "rs = r # rs'" and Pr: "P r"
    and all: "list_all2 (\<lambda>P r. P r) Ps rs'"
    by (auto simp: list_all2_Cons1)
  from Cons.prems(2) Pr obtain x where x: "r = Return x" by (cases r) auto
  from Cons.IH [OF all] Cons.prems(2) obtain xs where "collect rs' = Return xs"
    "list_all2 (\<lambda>P x. P (Return x)) Ps xs" by auto
  with x Pr rs show ?case by simp
qed

lemma served_ends:
  assumes inv: "\<forall>b b'. unchanged T b b' \<longrightarrow> I b \<longrightarrow> I b'"
      and no_throw: "\<forall>P \<in> set Ps. \<forall>e. \<not> P (Throw e)"
  shows "list_all2 (ends I) Ps ts \<Longrightarrow> list_all (keeps T) ts \<Longrightarrow> I b \<Longrightarrow>
         \<exists>xs b'. run (served sched None ts) b = (Return xs, b')
                  \<and> list_all2 (\<lambda>P x. P (Return x)) Ps xs \<and> unchanged T b b'"
proof (induction sched arbitrary: ts b)
  case Nil
  from in_order_ends [OF inv Nil.prems] obtain rs b'
    where rs: "run (in_order ts) b = (Return rs, b')" and all: "list_all2 (\<lambda>P r. P r) Ps rs"
      and u: "unchanged T b b'"
    by blast
  from collect_returns [OF all no_throw] obtain xs
    where "collect rs = Return xs" "list_all2 (\<lambda>P x. P (Return x)) Ps xs" by blast
  with rs u show ?case by (simp add: run_bnd)
next
  case (Cons i sched)
  show ?case
  proof (cases "i < length ts")
    case False
    with Cons.IH [OF Cons.prems] show ?thesis by simp
  next
    case True
    show ?thesis
    proof (cases "ts ! i")
      case (Done r)
      with True Cons.IH [OF Cons.prems] show ?thesis by simp
    next
      case (Await u k)
      from Cons.prems(1) True have len: "length Ps = length ts"
        and e: "ends I (Ps ! i) (ts ! i)"
        by (simp_all add: list_all2_conv_all_nth)
      from Cons.prems(2) True have "keeps T (ts ! i)" by (simp add: list_all_length)
      with Await have un: "unchanged T b (u b)" and kk: "keeps T (k b)" by simp_all
      from e Await Cons.prems(3) have ek: "ends I (Ps ! i) (k b)" by simp
      have nt: "\<not> (Ps ! i) (Throw x)" for x
        using no_throw True len by (simp add: Ball_def in_set_conv_nth) blast
      have "settle None (k b) = None"
      proof (cases "k b")
        case (Done r)
        with ek nt show ?thesis by (cases r) auto
      qed simp
      moreover have "list_all2 (ends I) Ps (ts[i := k b])"
        using Cons.prems(1) ek True by (simp add: list_all2_conv_all_nth nth_list_update)
      moreover have "list_all (keeps T) (ts[i := k b])"
        using Cons.prems(2) kk
        by (auto simp: list_all_iff dest: set_update_subset_insert [THEN subsetD])
      moreover from un Cons.prems(3) inv have "I (u b)" by blast
      ultimately obtain xs b'
        where "run (served sched (settle None (k b)) (ts[i := k b])) (u b) = (Return xs, b')"
          "list_all2 (\<lambda>P x. P (Return x)) Ps xs" "unchanged T (u b) b'"
        using Cons.IH [of "ts[i := k b]" "u b"] by auto
      with True Await un show ?thesis by (auto intro: unchanged_trans)
    qed
  qed
qed

lemma foldl_settle_Some: "foldl settle (Some e) ts = Some e"
  by (induction ts) simp_all

lemma foldl_settle_None:
  "\<forall>t \<in> set ts. \<forall>e. t \<noteq> Done (Throw e) \<Longrightarrow> foldl settle None ts = None"
proof (induction ts)
  case Nil
  show ?case by simp
next
  case (Cons t ts)
  have "settle None t = None"
  proof (cases t)
    case (Done r)
    with Cons.prems show ?thesis by (cases r) auto
  qed simp
  with Cons show ?case by simp
qed

lemma executeSingleTool_ends:
  assumes "is_call toolCall"
  shows "ends I (answers toolCall) (executeSingleTool parse toolCall cid uid)"
proof -
  let ?fn = "js_get toolCall (str ''function'')"
  let ?P = "answers toolCall"
  define Q :: "toolResult outcome \<Rightarrow> bool" where
    "Q = (\<lambda>r. case r of
                Return x \<Rightarrow> tool_call_id x = js_get toolCall (str ''id'') \<and> name x = name_of toolCall
              | Throw e \<Rightarrow> True)"
  have handler: "ends I ?P
      (bnd (read toolCall (str ''id'')) (\<lambda>call_id.
       bnd (read toolCall (str ''function'')) (\<lambda>fn.
       bnd (read fn (str ''name'')) (\<lambda>nm.
       ret \<lparr>tool_call_id = call_id, name = nm,
            result = \<lparr>success = False, message = error_message e, pdfUrl = None\<rparr>\<rparr>))))" for e
    using assms by (simp add: is_call_def read_def pure_simps ends_ret answers_def name_of_def)
  have tail: "ends I Q
      (bnd (switch_tool (js_get ?fn (str ''name'')) args uid) (\<lambda>res.
         ret \<lparr>tool_call_id = js_get toolCall (str ''id''), name = js_get ?fn (str ''name''),
              result = res\<rparr>))" for args
    by (rule ends_bnd, rule ends_mono, rule ends_top)
       (simp add: Q_def ends_ret name_of_def split: outcome.splits)
  have body: "ends I Q
      (bnd (read toolCall (str ''function'')) (\<lambda>fn.
       bnd (read fn (str ''arguments'')) (\<lambda>arguments.
       bnd (JSON_parse parse arguments) (\<lambda>args.
       bnd (switch_tool (js_get fn (str ''name'')) args uid) (\<lambda>res.
       ret \<lparr>tool_call_id = js_get toolCall (str ''id''),
            name = js_get fn (str ''name''),
            result = res\<rparr>)))))"
  proof (cases "js_String (js_get ?fn (str ''arguments''))")
    case None
    with assms show ?thesis
      by (simp add: is_call_def read_def JSON_parse_def pure_simps ends_throw Q_def)
  next
    case (Some payload)
    show ?thesis
    proof (cases "parse payload")
      case (Inl m)
      with assms Some show ?thesis
        by (simp add: is_call_def read_def JSON_parse_def pure_simps ends_throw Q_def)
    next
      case (Inr args)
      with assms Some tail [of args] show ?thesis
        by (simp add: is_call_def read_def JSON_parse_def pure_simps)
    qed
  qed
  show ?thesis
    unfolding executeSingleTool_def
    by (rule ends_try_catch, rule ends_mono [OF body])
       (simp add: Q_def handler answers_def split: outcome.splits)
qed


lemma executeToolsParallel_ends:
  assumes inv: "\<forall>b b'. unchanged tool_tables b b' \<longrightarrow> I b \<longrightarrow> I b'"
      and ends: "list_all2 (\<lambda>P c. ends I P (executeSingleTool parse c cid uid)) Ps calls"
      and no_throw: "\<forall>P \<in> set Ps. \<forall>e. \<not> P (Throw e)"
      and I: "I b"
  shows "\<exists>xs b'. run (executeToolsParallel parse sched calls cid uid) b = (Return xs, b')
                  \<and> list_all2 (\<lambda>P x. P (Return x)) Ps xs \<and> unchanged tool_tables b b'"
proof -
  let ?ts = "map (\<lambda>c. executeSingleTool parse c cid uid) calls"
  have e: "list_all2 (ends I) Ps ?ts"
    using ends by (simp add: list_all2_map2)
  have k: "list_all (keeps tool_tables) ?ts"
    by (simp add: list_all_iff keeps_executeSingleTool)
  have "t \<noteq> Done (Throw x)" if "t \<in> set ?ts" for t x
  proof
    assume t: "t = Done (Throw x)"
    from that obtain n where n: "n < length ?ts" "?ts ! n = t" by (auto simp: in_set_conv_nth)
    with e have "ends I (Ps ! n) t" and "n < length Ps"
      by (auto simp: list_all2_conv_all_nth)
    with t no_throw show False by (auto simp: Ball_def in_set_conv_nth)
  qed
  then have "foldl settle None ?ts = None" by (intro foldl_settle_None) blast
  with served_ends [OF inv no_throw e k I, of sched] show ?thesis
    by (simp add: executeToolsParallel_def promise_all_def)
qed

lemma list_all2_answers:
  "list_all2 (\<lambda>P x. P (Return x)) (map answers calls) xs \<Longrightarrow>
   length xs = length calls
   \<and> map tool_call_id xs = map (\<lambda>c. js_get c (str ''id'')) calls
   \<and> map name xs = map name_of calls"
  by (induction calls arbitrary: xs) (auto simp: list_all2_Cons1 answers_def)

text \<open>
  C1. A batch of tool calls yields one result per call, whatever the order in which the
  backend serves the requests of the calls: the list of results is as long as the list of
  calls, and the i-th result carries the \<^verbatim>\<open>id\<close> and the tool name of the i-th call,
  whatever the call's outcome. Both paths run the batch through \<^verbatim>\<open>executeToolsParallel\<close>.
\<close>

theorem one_result_per_call:
  assumes "list_all is_call calls"
  shows "\<exists>rs b'. run (executeToolsParallel parse sched calls cid uid) b = (Return rs, b')
           \<and> length rs = length calls
           \<and> map tool_call_id rs = map (\<lambda>c. js_get c (str ''id'')) calls
           \<and> map name rs = map name_of calls"
proof -
  have "list_all2 (\<lambda>P c. ends (\<lambda>b. True) P (executeSingleTool parse c cid uid))
          (map answers calls) calls"
    using assms
    by (simp add: list_all2_map1 list_all2_same list_all_iff executeSingleTool_ends)
  moreover have "\<forall>P \<in> set (map answers calls). \<forall>e. \<not> P (Throw e)"
    by (simp add: answers_def)
  ultimately obtain xs b'
    where "run (executeToolsParallel parse sched calls cid uid) b = (Return xs, b')"
      and "list_all2 (\<lambda>P x. P (Return x)) (map answers calls) xs"
    using executeToolsParallel_ends
      [where I = "\<lambda>b. True" and Ps = "map answers calls" and parse = parse and calls = calls
         and cid = cid and uid = uid and b = b and sched = sched]
    by auto
  with list_all2_answers show ?thesis by blast
qed







text \<open>
  C9. A call whose arguments parse and whose name is none of the eight tool names sends no
  request to the backend and does not throw: it has finished as soon as it is started, with
  the call's id and name and \<^verbatim>\<open>{success: false, message: 'Unknown tool'}\<close>; run by
  itself, it leaves the backend as it was.
\<close>

theorem unknown_tool_result:
  assumes "is_call toolCall"
      and "arguments_of toolCall = Some payload"
      and "parse payload = Inr args"
      and "name_of toolCall \<notin> set tool_names"
  shows "executeSingleTool parse toolCall cid uid =
           ret \<lparr>tool_call_id = js_get toolCall (str ''id''),
                name = name_of toolCall,
                result = \<lparr>success = False, message = lit ''Unknown tool'', pdfUrl = None\<rparr>\<rparr>
         \<and> run (executeSingleTool parse toolCall cid uid) b =
             (Return \<lparr>tool_call_id = js_get toolCall (str ''id''),
                      name = name_of toolCall,
                      result = \<lparr>success = False, message = lit ''Unknown tool'', pdfUrl = None\<rparr>\<rparr>,
              b)"
proof -
  from assms(4) have "switch_tool (name_of toolCall) args uid =
      ret \<lparr>success = False, message = lit ''Unknown tool'', pdfUrl = None\<rparr>"
    by (simp add: switch_tool_def tool_names_def)
  with assms(1,2,3) have "executeSingleTool parse toolCall cid uid =
           ret \<lparr>tool_call_id = js_get toolCall (str ''id''),
                name = name_of toolCall,
                result = \<lparr>success = False, message = lit ''Unknown tool'', pdfUrl = None\<rparr>\<rparr>"
    by (simp add: executeSingleTool_def is_call_def arguments_of_def name_of_def read_def
        JSON_parse_def pure_simps)
  then show ?thesis by (simp add: run_ret)
qed

theorem unknown_tool_result_witness:
  "is_call (tool_call ''call_9'' ''delete_case'' ''{\"caseId\":\"C1\"}'')
   \<and> arguments_of (tool_call ''call_9'' ''delete_case'' ''{\"caseId\":\"C1\"}'')
       = Some (str ''{\"caseId\":\"C1\"}'')
   \<and> reference_parse (str ''{\"caseId\":\"C1\"}'') = Inr (JObj [(str ''caseId'', lit ''C1'')])
   \<and> name_of (tool_call ''call_9'' ''delete_case'' ''{\"caseId\":\"C1\"}'') \<notin> set tool_names
   \<and> executeSingleTool reference_parse (tool_call ''call_9'' ''delete_case'' ''{\"caseId\":\"C1\"}'')
         (str ''C1'') (str ''system'')
       = ret \<lparr>tool_call_id = js_get (tool_call ''call_9'' ''delete_case'' ''{\"caseId\":\"C1\"}'') (str ''id''),
              name = name_of (tool_call ''call_9'' ''delete_case'' ''{\"caseId\":\"C1\"}''),
              result = \<lparr>success = False, message = lit ''Unknown tool'', pdfUrl = None\<rparr>\<rparr>
   \<and> run (executeSingleTool reference_parse (tool_call ''call_9'' ''delete_case'' ''{\"caseId\":\"C1\"}'')
         (str ''C1'') (str ''system'')) (sample_backend [] JNull)
       = (Return \<lparr>tool_call_id = js_get (tool_call ''call_9'' ''delete_case'' ''{\"caseId\":\"C1\"}'') (str ''id''),
                  name = name_of (tool_call ''call_9'' ''delete_case'' ''{\"caseId\":\"C1\"}''),
                  result = \<lparr>success = False, message = lit ''Unknown tool'', pdfUrl = None\<rparr>\<rparr>,
          sample_backend [] JNull)"
proof -
  let ?c = "tool_call ''call_9'' ''delete_case'' ''{\"caseId\":\"C1\"}''"
  have h1: "is_call ?c" by code_simp
  have h2: "arguments_of ?c = Some (str ''{\"caseId\":\"C1\"}'')" by code_simp
  have h3: "reference_parse (str ''{\"caseId\":\"C1\"}'') = Inr (JObj [(str ''caseId'', lit ''C1'')])"
    by code_simp
  have h4: "name_of ?c \<notin> set tool_names" by code_simp
  note t = unknown_tool_result
    [where toolCall = ?c and parse = reference_parse and cid = "str ''C1''"
       and uid = "str ''system''" and b = "sample_backend [] JNull", OF h1 h2 h3 h4]
  show ?thesis
    by (intro conjI) (rule h1, rule h2, rule h3, rule h4, rule t [THEN conjunct1],
        rule t [THEN conjunct2])
qed

theorem one_result_per_call_witness:
  "list_all is_call
     [tool_call ''call_1'' ''create_task'' ''{\"caseId\":\"C1\",\"title\":\"Collect passport\",\"priority\":\"high\"}'',
      tool_call ''call_2'' ''create_task'' ''{oops'',
      tool_call ''call_3'' ''create_oby_draft'' ''{\"caseId\":\"C1\"}'']
   \<and> (\<exists>rs b'.
         run (executeToolsParallel reference_parse [2, 0, 2]
           [tool_call ''call_1'' ''create_task'' ''{\"caseId\":\"C1\",\"title\":\"Collect passport\",\"priority\":\"high\"}'',
            tool_call ''call_2'' ''create_task'' ''{oops'',
            tool_call ''call_3'' ''create_oby_draft'' ''{\"caseId\":\"C1\"}'']
           (str ''C1'') (str ''system'')) (sample_case_backend [] JNull) = (Return rs, b')
         \<and> length rs = length
              [tool_call ''call_1'' ''create_task'' ''{\"caseId\":\"C1\",\"title\":\"Collect passport\",\"priority\":\"high\"}'',
               tool_call ''call_2'' ''create_task'' ''{oops'',
               tool_call ''call_3'' ''create_oby_draft'' ''{\"caseId\":\"C1\"}'']
         \<and> map tool_call_id rs = map (\<lambda>c. js_get c (str ''id''))
              [tool_call ''call_1'' ''create_task'' ''{\"caseId\":\"C1\",\"title\":\"Collect passport\",\"priority\":\"high\"}'',
               tool_call ''call_2'' ''create_task'' ''{oops'',
               tool_call ''call_3'' ''create_oby_draft'' ''{\"caseId\":\"C1\"}'']
         \<and> map name rs = map name_of
              [tool_call ''call_1'' ''create_task'' ''{\"caseId\":\"C1\",\"title\":\"Collect passport\",\"priority\":\"high\"}'',
               tool_call ''call_2'' ''create_task'' ''{oops'',
               tool_call ''call_3'' ''create_oby_draft'' ''{\"caseId\":\"C1\"}''])
   \<and> fst (run (executeToolsParallel reference_parse [2, 0, 2]
           [tool_call ''call_1'' ''create_task'' ''{\"caseId\":\"C1\",\"title\":\"Collect passport\",\"priority\":\"high\"}'',
            tool_call ''call_2'' ''create_task'' ''{oops'',
            tool_call ''call_3'' ''create_oby_draft'' ''{\"caseId\":\"C1\"}'']
           (str ''C1'') (str ''system'')) (sample_case_backend [] JNull))
       = Return [\<lparr>tool_call_id = lit ''call_1'', name = lit ''create_task'',
                  result = succeeded (check_mark @ str '' Task created: Collect passport'')\<rparr>,
                 \<lparr>tool_call_id = lit ''call_2'', name = lit ''create_task'',
                  result = \<lparr>success = False, message = lit ''Unexpected token in JSON'',
                            pdfUrl = None\<rparr>\<rparr>,
                 \<lparr>tool_call_id = lit ''call_3'', name = lit ''create_oby_draft'',
                  result = succeeded (check_mark
                             @ str '' OBY draft created with 0 auto-populated fields'')\<rparr>]"
proof -
  let ?cs = "[tool_call ''call_1'' ''create_task'' ''{\"caseId\":\"C1\",\"title\":\"Collect passport\",\"priority\":\"high\"}'',
      tool_call ''call_2'' ''create_task'' ''{oops'',
      tool_call ''call_3'' ''create_oby_draft'' ''{\"caseId\":\"C1\"}'']"
  have h: "list_all is_call ?cs" by code_simp
  have e: "fst (run (executeToolsParallel reference_parse [2, 0, 2] ?cs
           (str ''C1'') (str ''system'')) (sample_case_backend [] JNull))
       = Return [\<lparr>tool_call_id = lit ''call_1'', name = lit ''create_task'',
                  result = succeeded (check_mark @ str '' Task created: Collect passport'')\<rparr>,
                 \<lparr>tool_call_id = lit ''call_2'', name = lit ''create_task'',
                  result = \<lparr>success = False, message = lit ''Unexpected token in JSON'',
                            pdfUrl = None\<rparr>\<rparr>,
                 \<lparr>tool_call_id = lit ''call_3'', name = lit ''create_oby_draft'',
                  result = succeeded (check_mark
                             @ str '' OBY draft created with 0 auto-populated fields'')\<rparr>]"
    by code_simp
  show ?thesis
    by (intro conjI)
       (rule h,
        rule one_result_per_call
          [where calls = ?cs and parse = reference_parse and cid = "str ''C1''"
             and uid = "str ''system''" and b = "sample_case_backend [] JNull"
             and sched = "[2, 0, 2]", OF h],
        rule e)
qed








lemma serve_call_rejects:
  "failing b t = Some (Rejects m) \<Longrightarrow> serve_call t query b = (Throw (Exn m), b)"
  by (simp add: serve_call_def)















lemma str_inject: "(str a = str b) = (a = b)"
proof -
  have "inj (of_char :: char \<Rightarrow> int)" by (simp add: inj_def)
  then show ?thesis unfolding str_def by (rule inj_map_eq_map)
qed

lemma lit_inject: "(lit a = lit b) = (a = b)"
  by (simp add: lit_def str_inject)










lemma map_of_obj_set: "map_of (obj_set k v kvs) k' = (if k' = k then Some v else map_of kvs k')"
  by (induction kvs) auto

lemma map_of_foldl_obj_set:
  "map_of (foldl (\<lambda>row (k, v). obj_set k v row) kvs fs) k'
     = (case map_of (rev fs) k' of Some v \<Rightarrow> Some v | None \<Rightarrow> map_of kvs k')"
proof (induction fs arbitrary: kvs)
  case Nil
  show ?case by simp
next
  case (Cons f fs)
  obtain k v where f: "f = (k, v)" by (cases f)
  show ?case
    by (simp add: f Cons.IH map_of_obj_set map_add_def split: option.splits)
qed

lemma sent_fields_keys: "fst ` set (sent_fields fs) \<subseteq> fst ` set fs"
  by (auto simp: sent_fields_def)

lemma map_of_rev_sent_absent:
  assumes "k \<notin> fst ` set fs"
  shows "map_of (rev (sent_fields fs)) k = None"
proof -
  from assms sent_fields_keys [of fs] have "k \<notin> fst ` set (rev (sent_fields fs))" by auto
  then show ?thesis by (simp add: map_of_eq_None_iff)
qed

lemma map_of_rev_sent_present:
  assumes "distinct (map fst fs)" and "(k, v) \<in> set fs" and "v \<noteq> JUndefined"
  shows "map_of (rev (sent_fields fs)) k = Some v"
proof -
  from assms(1) have "distinct (map fst (sent_fields fs))"
    by (simp add: sent_fields_def distinct_map_filter)
  then have "distinct (map fst (rev (sent_fields fs)))"
    by (simp add: rev_map [symmetric])
  moreover from assms(2,3) have "(k, v) \<in> set (rev (sent_fields fs))"
    by (simp add: sent_fields_def)
  ultimately show ?thesis by (rule map_of_is_SomeI)
qed

lemma patch_keeps_column:
  assumes "k \<notin> fst ` set fs"
  shows "js_get (patch fs r) k = js_get r k"
proof (cases r)
  case (JObj kvs)
  with assms show ?thesis
    by (simp add: map_of_foldl_obj_set map_of_rev_sent_absent)
qed simp_all

lemma patch_sets_column:
  assumes "distinct (map fst fs)" and "(k, v) \<in> set fs" and "v \<noteq> JUndefined"
  shows "matches k v (patch fs (JObj kvs))"
  using assms by (simp add: map_of_foldl_obj_set map_of_rev_sent_present)

lemma matches_js_get: "matches k v r \<Longrightarrow> js_get r k = v"
  by (cases r) simp_all

lemma matches_obj: "matches k v r \<Longrightarrow> \<exists>kvs. r = JObj kvs"
  by (cases r) simp_all

lemma new_row_id: "js_get (new_row n fs) (str ''id'') = JNum (int (Suc n))"
  by (simp add: new_row_def)

lemma new_row_matches:
  assumes "k \<noteq> str ''id''" and "v \<noteq> JUndefined"
  shows "matches k v (new_row n ((k, v) # fs))"
  using assms by (simp add: new_row_def sent_fields_def)

lemma oby_data_keys: "distinct (map fst (oby_data c m args))"
  by (simp add: oby_data_def str_def)

lemma oby_data_no_id: "str ''id'' \<notin> fst ` set (oby_data c m args)"
  by (simp add: oby_data_def str_def)

lemma oby_data_case: "(str ''case_id'', c) \<in> set (oby_data c m args)"
  by (simp add: oby_data_def)

lemma table_names_differ:
  "str ''hac_logs'' \<noteq> str ''oby_forms''" "str ''oby_forms'' \<noteq> str ''hac_logs''"
  "str ''hac_logs'' \<noteq> str ''master_table''" "str ''master_table'' \<noteq> str ''hac_logs''"
  "str ''oby_forms'' \<noteq> str ''master_table''" "str ''master_table'' \<noteq> str ''oby_forms''"
  "str ''case_id'' \<noteq> str ''id''"
  by (simp_all add: str_def)

lemma patch_keeps_matches:
  assumes "k \<notin> fst ` set fs"
  shows "matches k v (patch fs r) = matches k v r"
proof (cases r)
  case (JObj kvs)
  with assms show ?thesis
    by (simp add: map_of_foldl_obj_set map_of_rev_sent_absent)
qed simp_all

lemma serve_call_runs:
  "failing b t = None \<Longrightarrow> serve_call t query b = (case query b of (r, b') \<Rightarrow> (Return r, b'))"
  by (simp add: serve_call_def)

lemma failed_message:
  "str ''Failed: '' @ str ''Cannot convert object to primitive value''
     = str ''Failed: Cannot convert object to primitive value''"
  by (simp add: str_def)

lemma create_oby_draft_inserts:
  assumes c: "js_get args (str ''caseId'') = JStr c"
      and f: "failing b (str ''master_table'') = None" "failing b (str ''oby_forms'') = None"
             "failing b (str ''hac_logs'') = None"
      and m: "filter (matches (str ''case_id'') (JStr c)) (tables b (str ''master_table'')) = [m]"
      and d: "drafts_for (JStr c) b = []"
  shows "run (create_oby_draft args uid) b =
     (Return (oby_result False args),
      (case render (oby_message False args) of
         Some msg \<Rightarrow>
           b\<lparr>tables := (tables b)
                (str ''oby_forms'' := tables b (str ''oby_forms'')
                                       @ [new_row (next_id b) (oby_data (JStr c) m args)],
                 str ''hac_logs'' := tables b (str ''hac_logs'')
                                      @ [new_row (Suc (next_id b)) (oby_log (JStr c) False uid)]),
              next_id := Suc (Suc (next_id b))\<rparr>
       | None \<Rightarrow>
           b\<lparr>tables := (tables b)
                (str ''oby_forms'' := tables b (str ''oby_forms'')
                                       @ [new_row (next_id b) (oby_data (JStr c) m args)]),
              next_id := Suc (next_id b)\<rparr>))"
proof -
  from c have n: "\<not> nullish args" by (auto simp: nullish_def)
  from m have "m \<in> set (filter (matches (str ''case_id'') (JStr c)) (tables b (str ''master_table'')))"
    by simp
  then have "matches (str ''case_id'') (JStr c) m" by simp
  then obtain mk where mk: "m = JObj mk" by (auto dest: matches_obj)
  from d have d': "filter (matches (str ''case_id'') (JStr c)) (tables b (str ''oby_forms'')) = []"
    by (simp add: drafts_for_def)
  show ?thesis
    using c n f m d'
    by (simp add: create_oby_draft_def run_bnd run_try_catch run_ret run_throw run_call read_def
        Let_def select_single_def select_maybeSingle_def insert_rows_def serve_call_runs mk
        template_def failed_def oby_result_def cannot_convert_def table_names_differ fun_upd_twist
        failure_def lit_def failed_message
        split: option.splits)
qed

lemma create_oby_draft_updates:
  assumes c: "js_get args (str ''caseId'') = JStr c"
      and f: "failing b (str ''master_table'') = None" "failing b (str ''oby_forms'') = None"
             "failing b (str ''hac_logs'') = None"
      and m: "filter (matches (str ''case_id'') (JStr c)) (tables b (str ''master_table'')) = [m]"
      and d: "drafts_for (JStr c) b = [r0]"
  shows "run (create_oby_draft args uid) b =
     (Return (oby_result True args),
      (case render (oby_message True args) of
         Some msg \<Rightarrow>
           b\<lparr>tables := (tables b)
                (str ''oby_forms'' :=
                   map (\<lambda>r. if matches (str ''id'') (js_get r0 (str ''id'')) r
                            then patch (oby_data (JStr c) m args) r else r)
                     (tables b (str ''oby_forms'')),
                 str ''hac_logs'' := tables b (str ''hac_logs'')
                                      @ [new_row (next_id b) (oby_log (JStr c) True uid)]),
              next_id := Suc (next_id b)\<rparr>
       | None \<Rightarrow>
           b\<lparr>tables := (tables b)
                (str ''oby_forms'' :=
                   map (\<lambda>r. if matches (str ''id'') (js_get r0 (str ''id'')) r
                            then patch (oby_data (JStr c) m args) r else r)
                     (tables b (str ''oby_forms'')))\<rparr>))"
proof -
  from c have n: "\<not> nullish args" by (auto simp: nullish_def)
  from m have "m \<in> set (filter (matches (str ''case_id'') (JStr c)) (tables b (str ''master_table'')))"
    by simp
  then have "matches (str ''case_id'') (JStr c) m" by simp
  then obtain mk where mk: "m = JObj mk" by (auto dest: matches_obj)
  from d have d': "filter (matches (str ''case_id'') (JStr c)) (tables b (str ''oby_forms'')) = [r0]"
    by (simp add: drafts_for_def)
  then have "r0 \<in> set (filter (matches (str ''case_id'') (JStr c)) (tables b (str ''oby_forms'')))"
    by simp
  then have "matches (str ''case_id'') (JStr c) r0" by simp
  then obtain k0 where k0: "r0 = JObj k0" by (auto dest: matches_obj)
  show ?thesis
    using c n f m d'
    by (simp add: create_oby_draft_def run_bnd run_try_catch run_ret run_throw run_call read_def
        Let_def select_single_def select_maybeSingle_def insert_rows_def serve_call_runs mk k0
        template_def failed_def oby_result_def cannot_convert_def table_names_differ fun_upd_twist
        failure_def lit_def failed_message
        split: option.splits cong: if_cong)
qed

lemma single_row: "length xs = Suc 0 \<Longrightarrow> \<exists>x. xs = [x]"
  by (cases xs) auto

lemma at_most_one_row: "length xs \<le> Suc 0 \<Longrightarrow> xs = [] \<or> (\<exists>x. xs = [x])"
  by (cases xs) auto

lemma id_below_mono: "id_below n r \<Longrightarrow> n \<le> n' \<Longrightarrow> id_below n' r"
  by (auto simp: id_below_def split: json.splits)

lemma id_below_fresh: "id_below n r \<Longrightarrow> js_get r (str ''id'') \<noteq> JNum (int (Suc n))"
  by (auto simp: id_below_def split: json.splits)

lemma has_id_new_row: "has_id (new_row n fs)"
  by (simp add: has_id_def new_row_def)

lemma has_id_patch: "str ''id'' \<notin> fst ` set fs \<Longrightarrow> has_id (patch fs r) = has_id r"
  by (simp add: has_id_def patch_keeps_matches patch_keeps_column)

lemma oby_step_insert:
  assumes ready: "oby_ready (JStr c) b"
      and c: "js_get args (str ''caseId'') = JStr c"
      and m: "filter (matches (str ''case_id'') (JStr c)) (tables b (str ''master_table'')) = [m]"
      and d: "drafts_for (JStr c) b = []"
  shows "\<exists>b1. run (create_oby_draft args uid) b = (Return (oby_result False args), b1)
           \<and> oby_ready (JStr c) b1
           \<and> drafts_for (JStr c) b1 = [new_row (next_id b) (oby_data (JStr c) m args)]
           \<and> tables b1 (str ''oby_forms'')
               = tables b (str ''oby_forms'') @ [new_row (next_id b) (oby_data (JStr c) m args)]
           \<and> tables b1 (str ''master_table'') = tables b (str ''master_table'')"
proof -
  from ready have f: "failing b (str ''master_table'') = None"
      "failing b (str ''oby_forms'') = None" "failing b (str ''hac_logs'') = None"
    and dist: "distinct (map (\<lambda>r. js_get r (str ''id'')) (tables b (str ''oby_forms'')))"
    and below: "list_all (id_below (next_id b)) (tables b (str ''oby_forms''))"
    and ids: "list_all has_id (tables b (str ''oby_forms''))"
    by (simp_all add: oby_ready_def)
  define new where "new = new_row (next_id b) (oby_data (JStr c) m args)"
  define b1 where "b1 =
      (case render (oby_message False args) of
         Some msg \<Rightarrow>
           b\<lparr>tables := (tables b)
                (str ''oby_forms'' := tables b (str ''oby_forms'') @ [new],
                 str ''hac_logs'' := tables b (str ''hac_logs'')
                                      @ [new_row (Suc (next_id b)) (oby_log (JStr c) False uid)]),
              next_id := Suc (Suc (next_id b))\<rparr>
       | None \<Rightarrow>
           b\<lparr>tables := (tables b) (str ''oby_forms'' := tables b (str ''oby_forms'') @ [new]),
              next_id := Suc (next_id b)\<rparr>)"
  have run: "run (create_oby_draft args uid) b = (Return (oby_result False args), b1)"
    unfolding b1_def new_def using c f m d by (rule create_oby_draft_inserts)
  have t: "tables b1 (str ''oby_forms'') = tables b (str ''oby_forms'') @ [new]"
    and tm: "tables b1 (str ''master_table'') = tables b (str ''master_table'')"
    and fl: "failing b1 = failing b"
    and nx: "Suc (next_id b) \<le> next_id b1"
    by (cases "render (oby_message False args)"; simp add: b1_def table_names_differ)+
  have new_case: "matches (str ''case_id'') (JStr c) new"
    unfolding new_def oby_data_def by (rule new_row_matches) (simp_all add: table_names_differ)
  have new_id: "js_get new (str ''id'') = JNum (int (Suc (next_id b)))"
    unfolding new_def by (rule new_row_id)
  have fresh: "js_get new (str ''id'') \<notin> (\<lambda>r. js_get r (str ''id'')) ` set (tables b (str ''oby_forms''))"
  proof
    assume "js_get new (str ''id'') \<in> (\<lambda>r. js_get r (str ''id'')) ` set (tables b (str ''oby_forms''))"
    then obtain r where r: "r \<in> set (tables b (str ''oby_forms''))"
      and e: "js_get new (str ''id'') = js_get r (str ''id'')"
      by blast
    from below r have "id_below (next_id b) r" by (simp add: list_all_iff)
    then have "js_get r (str ''id'') \<noteq> JNum (int (Suc (next_id b)))" by (rule id_below_fresh)
    with e new_id show False by simp
  qed
  have drafts: "drafts_for (JStr c) b1 = [new]"
    using d new_case by (simp add: drafts_for_def t)
  have "id_below (next_id b1) new"
    unfolding id_below_def new_id using nx by simp
  moreover have "list_all (id_below (next_id b1)) (tables b (str ''oby_forms''))"
    using below nx by (auto simp: list_all_iff intro: id_below_mono)
  ultimately have below1: "list_all (id_below (next_id b1)) (tables b1 (str ''oby_forms''))"
    by (simp add: t)
  have dist1: "distinct (map (\<lambda>r. js_get r (str ''id'')) (tables b1 (str ''oby_forms'')))"
    using dist fresh by (simp add: t)
  have ids1: "list_all has_id (tables b1 (str ''oby_forms''))"
    using ids by (simp add: t new_def has_id_new_row)
  have "oby_ready (JStr c) b1"
    unfolding oby_ready_def using f m drafts below1 dist1 ids1 by (simp add: fl tm)
  with run drafts t tm show ?thesis unfolding new_def by blast
qed

lemma oby_step_update:
  assumes ready: "oby_ready (JStr c) b"
      and c: "js_get args (str ''caseId'') = JStr c"
      and m: "filter (matches (str ''case_id'') (JStr c)) (tables b (str ''master_table'')) = [m]"
      and d: "drafts_for (JStr c) b = [r0]"
  shows "\<exists>b1. run (create_oby_draft args uid) b = (Return (oby_result True args), b1)
           \<and> oby_ready (JStr c) b1
           \<and> drafts_for (JStr c) b1 = [patch (oby_data (JStr c) m args) r0]
           \<and> tables b1 (str ''oby_forms'')
               = map (\<lambda>r. if r = r0 then patch (oby_data (JStr c) m args) r0 else r)
                   (tables b (str ''oby_forms''))
           \<and> tables b1 (str ''master_table'') = tables b (str ''master_table'')"
proof -
  from ready have f: "failing b (str ''master_table'') = None"
      "failing b (str ''oby_forms'') = None" "failing b (str ''hac_logs'') = None"
    and dist: "distinct (map (\<lambda>r. js_get r (str ''id'')) (tables b (str ''oby_forms'')))"
    and below: "list_all (id_below (next_id b)) (tables b (str ''oby_forms''))"
    and ids: "list_all has_id (tables b (str ''oby_forms''))"
    by (simp_all add: oby_ready_def)
  define rows where "rows = tables b (str ''oby_forms'')"
  define Q where "Q = matches (str ''case_id'') (JStr c)"
  define p where "p = patch (oby_data (JStr c) m args)"
  define g where "g = (\<lambda>r. if matches (str ''id'') (js_get r0 (str ''id'')) r then p r else r)"
  define b1 where "b1 =
      (case render (oby_message True args) of
         Some msg \<Rightarrow>
           b\<lparr>tables := (tables b)
                (str ''oby_forms'' := map g rows,
                 str ''hac_logs'' := tables b (str ''hac_logs'')
                                      @ [new_row (next_id b) (oby_log (JStr c) True uid)]),
              next_id := Suc (next_id b)\<rparr>
       | None \<Rightarrow> b\<lparr>tables := (tables b) (str ''oby_forms'' := map g rows)\<rparr>)"
  have run: "run (create_oby_draft args uid) b = (Return (oby_result True args), b1)"
    unfolding b1_def g_def p_def rows_def using c f m d by (rule create_oby_draft_updates)
  have t: "tables b1 (str ''oby_forms'') = map g rows"
    and tm: "tables b1 (str ''master_table'') = tables b (str ''master_table'')"
    and fl: "failing b1 = failing b"
    and nx: "next_id b \<le> next_id b1"
    by (cases "render (oby_message True args)"; simp add: b1_def table_names_differ)+
  from d have fr: "filter Q rows = [r0]" by (simp add: drafts_for_def Q_def rows_def)
  then have "r0 \<in> set (filter Q rows)" by simp
  then have r0: "r0 \<in> set rows" and Q0: "Q r0" by simp_all
  have inj: "inj_on (\<lambda>r. js_get r (str ''id'')) (set rows)"
    using dist by (simp add: distinct_map rows_def)
  from ids r0 have id0: "matches (str ''id'') (js_get r0 (str ''id'')) r0"
    by (simp add: list_all_iff rows_def has_id_def)
  have hit: "matches (str ''id'') (js_get r0 (str ''id'')) r = (r = r0)" if r: "r \<in> set rows" for r
  proof
    assume "matches (str ''id'') (js_get r0 (str ''id'')) r"
    then have e: "js_get r (str ''id'') = js_get r0 (str ''id'')" by (rule matches_js_get)
    show "r = r0" using inj e r r0 by (rule inj_onD)
  next
    assume "r = r0"
    with id0 show "matches (str ''id'') (js_get r0 (str ''id'')) r" by simp
  qed
  have g: "g r = (if r = r0 then p r0 else r)" if "r \<in> set rows" for r
    using hit [OF that] by (simp add: g_def)
  then have mg: "map g rows = map (\<lambda>r. if r = r0 then p r0 else r) rows"
    by (simp cong: map_cong)
  have same_id: "js_get (g r) (str ''id'') = js_get r (str ''id'')" for r
    by (simp add: g_def p_def patch_keeps_column oby_data_no_id)
  from Q0 obtain k0 where k0: "r0 = JObj k0" unfolding Q_def by (auto dest: matches_obj)
  have "Q (patch (oby_data (JStr c) m args) (JObj k0))"
    unfolding Q_def by (rule patch_sets_column) (simp_all add: oby_data_keys oby_data_case)
  then have Qp: "Q (p r0)" unfolding k0 p_def .
  have same_case: "Q (g r) = Q r" if r: "r \<in> set rows" for r
    using g [OF r] Qp Q0 by auto
  have "filter Q (map g rows) = map g (filter (Q \<circ> g) rows)"
    by (rule filter_map)
  also have "filter (Q \<circ> g) rows = filter Q rows"
    by (rule filter_cong [OF refl]) (simp add: same_case)
  finally have "filter Q (map g rows) = [g r0]" by (simp add: fr)
  with g [OF r0] have drafts: "drafts_for (JStr c) b1 = [p r0]"
    by (simp add: drafts_for_def t Q_def)
  have idm: "map (\<lambda>r. js_get r (str ''id'')) (map g rows) = map (\<lambda>r. js_get r (str ''id'')) rows"
    by (simp add: same_id comp_def)
  have dist1: "distinct (map (\<lambda>r. js_get r (str ''id'')) (tables b1 (str ''oby_forms'')))"
    unfolding t idm using dist by (simp add: rows_def)
  have "id_below (next_id b1) (g r)" if "r \<in> set rows" for r
  proof -
    from below that have "id_below (next_id b) r" by (simp add: list_all_iff rows_def)
    then have "id_below (next_id b1) r" using nx by (rule id_below_mono)
    then show ?thesis unfolding id_below_def same_id .
  qed
  then have below1: "list_all (id_below (next_id b1)) (tables b1 (str ''oby_forms''))"
    by (simp add: t list_all_iff)
  have "has_id (g r) = has_id r" for r
    by (simp add: g_def p_def has_id_patch oby_data_no_id)
  with ids have ids1: "list_all has_id (tables b1 (str ''oby_forms''))"
    by (simp add: t list_all_iff rows_def)
  have "oby_ready (JStr c) b1"
    unfolding oby_ready_def using f m drafts below1 dist1 ids1 by (simp add: fl tm)
  with run drafts t mg tm show ?thesis unfolding p_def rows_def by auto
qed

lemma switch_create_oby_draft:
  "switch_tool (lit ''create_oby_draft'') args uid = create_oby_draft args uid"
  by (simp add: switch_tool_def lit_inject)

lemma js_or_defined: "js_or a (JArr []) \<noteq> JUndefined"
  by (cases a) (simp_all add: js_or_def)

lemma oby_patch_columns:
  assumes "matches (str ''case_id'') c' r" and "m \<noteq> JUndefined"
  shows "js_get (patch (oby_data c m args) r) (str ''id'') = js_get r (str ''id'')"
    and "js_get (patch (oby_data c m args) r) (str ''status'') = lit ''draft''"
    and "js_get (patch (oby_data c m args) r) (str ''form_data'') = m"
    and "js_get (patch (oby_data c m args) r) (str ''auto_populated_fields'')
           = js_or (js_get args (str ''autoPopulatedFields'')) (JArr [])"
    and "js_get (patch (oby_data c m args) r) (str ''hac_approved'') = JBool False"
proof -
  from assms(1) obtain kvs where r: "r = JObj kvs" by (auto dest: matches_obj)
  show "js_get (patch (oby_data c m args) r) (str ''id'') = js_get r (str ''id'')"
    by (simp add: patch_keeps_column oby_data_no_id)
  have "matches (str ''status'') (lit ''draft'') (patch (oby_data c m args) (JObj kvs))"
    by (rule patch_sets_column) (simp_all add: oby_data_keys, simp_all add: oby_data_def lit_def)
  then show "js_get (patch (oby_data c m args) r) (str ''status'') = lit ''draft''"
    unfolding r by (rule matches_js_get)
  have "matches (str ''form_data'') m (patch (oby_data c m args) (JObj kvs))"
    using assms(2) by (intro patch_sets_column) (simp_all add: oby_data_keys, simp add: oby_data_def)
  then show "js_get (patch (oby_data c m args) r) (str ''form_data'') = m"
    unfolding r by (rule matches_js_get)
  have "matches (str ''auto_populated_fields'')
          (js_or (js_get args (str ''autoPopulatedFields'')) (JArr []))
          (patch (oby_data c m args) (JObj kvs))"
    by (rule patch_sets_column) (simp_all add: oby_data_keys js_or_defined, simp add: oby_data_def)
  then show "js_get (patch (oby_data c m args) r) (str ''auto_populated_fields'')
           = js_or (js_get args (str ''autoPopulatedFields'')) (JArr [])"
    unfolding r by (rule matches_js_get)
  have "matches (str ''hac_approved'') (JBool False) (patch (oby_data c m args) (JObj kvs))"
    by (rule patch_sets_column) (simp_all add: oby_data_keys, simp add: oby_data_def)
  then show "js_get (patch (oby_data c m args) r) (str ''hac_approved'') = JBool False"
    unfolding r by (rule matches_js_get)
qed

text \<open>
  C8, as the code has it. From a state where the case has its master record and at most
  one draft and the \<^verbatim>\<open>id\<close> column of \<^verbatim>\<open>oby_forms\<close> is a key, two invocations of
  \<^verbatim>\<open>create_oby_draft\<close> for the case, the second started when the first has finished, leave
  exactly one draft. The first inserts the draft \<open>d1\<close> when there is none, and overwrites
  the existing one otherwise; the second overwrites \<open>d1\<close> in place: the draft \<open>d2\<close> it
  leaves has the \<^verbatim>\<open>id\<close> of \<open>d1\<close>, the master record as \<^verbatim>\<open>form_data\<close> and the field list
  of the second call, no other row of the table changes and none is added. Each call
  answers with the success message, or with a failure when its field count does not convert
  to a string (the draft is written all the same).
\<close>

theorem oby_draft_twice:
  assumes "oby_ready (JStr c) b"
      and "js_get args1 (str ''caseId'') = JStr c"
      and "js_get args2 (str ''caseId'') = JStr c"
      and "run (switch_tool (lit ''create_oby_draft'') args1 uid1) b = (r1, b1)"
      and "run (switch_tool (lit ''create_oby_draft'') args2 uid2) b1 = (r2, b2)"
  shows "\<exists>m d1 d2.
           filter (matches (str ''case_id'') (JStr c)) (tables b (str ''master_table'')) = [m]
         \<and> d1 = (case drafts_for (JStr c) b of
                   [] \<Rightarrow> new_row (next_id b) (oby_data (JStr c) m args1)
                 | d0 # ds \<Rightarrow> patch (oby_data (JStr c) m args1) d0)
         \<and> tables b1 (str ''oby_forms'')
             = (case drafts_for (JStr c) b of
                  [] \<Rightarrow> tables b (str ''oby_forms'') @ [d1]
                | d0 # ds \<Rightarrow> map (\<lambda>r. if r = d0 then d1 else r) (tables b (str ''oby_forms'')))
         \<and> drafts_for (JStr c) b1 = [d1]
         \<and> d2 = patch (oby_data (JStr c) m args2) d1
         \<and> tables b2 (str ''oby_forms'')
             = map (\<lambda>r. if r = d1 then d2 else r) (tables b1 (str ''oby_forms''))
         \<and> drafts_for (JStr c) b2 = [d2]
         \<and> js_get d2 (str ''id'') = js_get d1 (str ''id'')
         \<and> js_get d2 (str ''status'') = lit ''draft''
         \<and> js_get d2 (str ''form_data'') = m
         \<and> js_get d2 (str ''auto_populated_fields'')
             = js_or (js_get args2 (str ''autoPopulatedFields'')) (JArr [])
         \<and> r1 = Return (oby_result (drafts_for (JStr c) b \<noteq> []) args1)
         \<and> r2 = Return (oby_result True args2)"
proof -
  from assms(1) obtain m
    where m: "filter (matches (str ''case_id'') (JStr c)) (tables b (str ''master_table'')) = [m]"
    by (auto simp: oby_ready_def dest: single_row)
  then have "m \<in> set (filter (matches (str ''case_id'') (JStr c)) (tables b (str ''master_table'')))"
    by simp
  then have "matches (str ''case_id'') (JStr c) m" by simp
  then have mdef: "m \<noteq> JUndefined" by (auto dest: matches_obj)
  define d1 where "d1 = (case drafts_for (JStr c) b of
                   [] \<Rightarrow> new_row (next_id b) (oby_data (JStr c) m args1)
                 | d0 # ds \<Rightarrow> patch (oby_data (JStr c) m args1) d0)"
  define d2 where "d2 = patch (oby_data (JStr c) m args2) d1"
  from assms(1) have "drafts_for (JStr c) b = [] \<or> (\<exists>r0. drafts_for (JStr c) b = [r0])"
    by (simp add: oby_ready_def at_most_one_row)
  then have first: "oby_ready (JStr c) b1 \<and> drafts_for (JStr c) b1 = [d1]
      \<and> tables b1 (str ''oby_forms'')
             = (case drafts_for (JStr c) b of
                  [] \<Rightarrow> tables b (str ''oby_forms'') @ [d1]
                | d0 # ds \<Rightarrow> map (\<lambda>r. if r = d0 then d1 else r) (tables b (str ''oby_forms'')))
      \<and> tables b1 (str ''master_table'') = tables b (str ''master_table'')
      \<and> r1 = Return (oby_result (drafts_for (JStr c) b \<noteq> []) args1)"
  proof
    assume d: "drafts_for (JStr c) b = []"
    from oby_step_insert [OF assms(1,2) m d, of uid1] assms(4) d show ?thesis
      by (auto simp: switch_create_oby_draft d1_def)
  next
    assume "\<exists>r0. drafts_for (JStr c) b = [r0]"
    then obtain r0 where d: "drafts_for (JStr c) b = [r0]" ..
    from oby_step_update [OF assms(1,2) m d, of uid1] assms(4) d show ?thesis
      by (auto simp: switch_create_oby_draft d1_def)
  qed
  then have ready1: "oby_ready (JStr c) b1" and dr1: "drafts_for (JStr c) b1 = [d1]"
    and m1: "filter (matches (str ''case_id'') (JStr c)) (tables b1 (str ''master_table'')) = [m]"
    by (simp_all add: m)
  from oby_step_update [OF ready1 assms(3) m1 dr1, of uid2] assms(5)
  have second: "drafts_for (JStr c) b2 = [d2]
      \<and> tables b2 (str ''oby_forms'')
             = map (\<lambda>r. if r = d1 then d2 else r) (tables b1 (str ''oby_forms''))
      \<and> r2 = Return (oby_result True args2)"
    by (auto simp: switch_create_oby_draft d2_def)
  from dr1 have "d1 \<in> set (drafts_for (JStr c) b1)" by simp
  then have c1: "matches (str ''case_id'') (JStr c) d1" by (simp add: drafts_for_def)
  note cols = oby_patch_columns [OF c1 mdef, of "JStr c" args2, folded d2_def]
  from m d1_def d2_def first second cols show ?thesis by blast
qed

theorem oby_draft_twice_witness:
  "oby_ready (JStr (str ''C1'')) (sample_case_backend [] JNull)
   \<and> js_get sample_oby_args (str ''caseId'') = JStr (str ''C1'')
   \<and> js_get sample_oby_args2 (str ''caseId'') = JStr (str ''C1'')
   \<and> (\<exists>m d1 d2.
         filter (matches (str ''case_id'') (JStr (str ''C1'')))
           (tables (sample_case_backend [] JNull) (str ''master_table'')) = [m]
       \<and> d1 = (case drafts_for (JStr (str ''C1'')) (sample_case_backend [] JNull) of
                 [] \<Rightarrow> new_row (next_id (sample_case_backend [] JNull))
                        (oby_data (JStr (str ''C1'')) m sample_oby_args)
               | d0 # ds \<Rightarrow> patch (oby_data (JStr (str ''C1'')) m sample_oby_args) d0)
       \<and> tables (snd (run (switch_tool (lit ''create_oby_draft'') sample_oby_args (str ''system''))
                    (sample_case_backend [] JNull))) (str ''oby_forms'')
           = (case drafts_for (JStr (str ''C1'')) (sample_case_backend [] JNull) of
                [] \<Rightarrow> tables (sample_case_backend [] JNull) (str ''oby_forms'') @ [d1]
              | d0 # ds \<Rightarrow> map (\<lambda>r. if r = d0 then d1 else r)
                           (tables (sample_case_backend [] JNull) (str ''oby_forms'')))
       \<and> drafts_for (JStr (str ''C1''))
           (snd (run (switch_tool (lit ''create_oby_draft'') sample_oby_args (str ''system''))
                   (sample_case_backend [] JNull))) = [d1]
       \<and> d2 = patch (oby_data (JStr (str ''C1'')) m sample_oby_args2) d1
       \<and> tables (snd (run (switch_tool (lit ''create_oby_draft'') sample_oby_args2 (str ''agent''))
                    (snd (run (switch_tool (lit ''create_oby_draft'') sample_oby_args (str ''system''))
                            (sample_case_backend [] JNull))))) (str ''oby_forms'')
           = map (\<lambda>r. if r = d1 then d2 else r)
               (tables (snd (run (switch_tool (lit ''create_oby_draft'') sample_oby_args (str ''system''))
                               (sample_case_backend [] JNull))) (str ''oby_forms''))
       \<and> drafts_for (JStr (str ''C1''))
           (snd (run (switch_tool (lit ''create_oby_draft'') sample_oby_args2 (str ''agent''))
                   (snd (run (switch_tool (lit ''create_oby_draft'') sample_oby_args (str ''system''))
                           (sample_case_backend [] JNull))))) = [d2]
       \<and> js_get d2 (str ''id'') = js_get d1 (str ''id'')
       \<and> js_get d2 (str ''status'') = lit ''draft''
       \<and> js_get d2 (str ''form_data'') = m
       \<and> js_get d2 (str ''auto_populated_fields'')
           = js_or (js_get sample_oby_args2 (str ''autoPopulatedFields'')) (JArr [])
       \<and> fst (run (switch_tool (lit ''create_oby_draft'') sample_oby_args (str ''system''))
                (sample_case_backend [] JNull))
           = Return (oby_result (drafts_for (JStr (str ''C1'')) (sample_case_backend [] JNull) \<noteq> [])
                       sample_oby_args)
       \<and> fst (run (switch_tool (lit ''create_oby_draft'') sample_oby_args2 (str ''agent''))
                (snd (run (switch_tool (lit ''create_oby_draft'') sample_oby_args (str ''system''))
                        (sample_case_backend [] JNull))))
           = Return (oby_result True sample_oby_args2))
   \<and> tables (snd (run (switch_tool (lit ''create_oby_draft'') sample_oby_args (str ''system''))
                (sample_case_backend [] JNull))) (str ''oby_forms'')
       = [JObj [(str ''id'', JNum 2), (str ''case_id'', lit ''C1''), (str ''status'', lit ''draft''),
                (str ''form_data'',
                   JObj [(str ''id'', JNum 1), (str ''case_id'', lit ''C1''),
                         (str ''applicant_first_name'', lit ''Jan'')]),
                (str ''auto_populated_fields'', JArr [lit ''applicant_first_name'']),
                (str ''hac_approved'', JBool False)]]
   \<and> tables (snd (run (switch_tool (lit ''create_oby_draft'') sample_oby_args2 (str ''agent''))
                (snd (run (switch_tool (lit ''create_oby_draft'') sample_oby_args (str ''system''))
                        (sample_case_backend [] JNull))))) (str ''oby_forms'')
       = [JObj [(str ''id'', JNum 2), (str ''case_id'', lit ''C1''), (str ''status'', lit ''draft''),
                (str ''form_data'',
                   JObj [(str ''id'', JNum 1), (str ''case_id'', lit ''C1''),
                         (str ''applicant_first_name'', lit ''Jan'')]),
                (str ''auto_populated_fields'',
                   JArr [lit ''applicant_first_name'', lit ''father_last_name'']),
                (str ''hac_approved'', JBool False)]]
   \<and> fst (run (switch_tool (lit ''create_oby_draft'') sample_oby_args (str ''system''))
            (sample_case_backend [] JNull))
       = Return (succeeded (check_mark @ str '' OBY draft created with 1 auto-populated fields''))
   \<and> fst (run (switch_tool (lit ''create_oby_draft'') sample_oby_args2 (str ''agent''))
            (snd (run (switch_tool (lit ''create_oby_draft'') sample_oby_args (str ''system''))
                    (sample_case_backend [] JNull))))
       = Return (succeeded (check_mark @ str '' OBY draft updated with 2 auto-populated fields''))"
proof -
  let ?b = "sample_case_backend [] JNull"
  let ?x = "run (switch_tool (lit ''create_oby_draft'') sample_oby_args (str ''system'')) ?b"
  let ?y = "run (switch_tool (lit ''create_oby_draft'') sample_oby_args2 (str ''agent'')) (snd ?x)"
  have h1: "oby_ready (JStr (str ''C1'')) ?b" by code_simp
  have h2: "js_get sample_oby_args (str ''caseId'') = JStr (str ''C1'')" by code_simp
  have h3: "js_get sample_oby_args2 (str ''caseId'') = JStr (str ''C1'')" by code_simp
  have h4: "?x = (fst ?x, snd ?x)" by simp
  have h5: "?y = (fst ?y, snd ?y)" by simp
  note t = oby_draft_twice [OF h1 h2 h3 h4 h5]
  have e1: "tables (snd ?x) (str ''oby_forms'')
       = [JObj [(str ''id'', JNum 2), (str ''case_id'', lit ''C1''), (str ''status'', lit ''draft''),
                (str ''form_data'',
                   JObj [(str ''id'', JNum 1), (str ''case_id'', lit ''C1''),
                         (str ''applicant_first_name'', lit ''Jan'')]),
                (str ''auto_populated_fields'', JArr [lit ''applicant_first_name'']),
                (str ''hac_approved'', JBool False)]]"
    by code_simp
  have e2: "tables (snd ?y) (str ''oby_forms'')
       = [JObj [(str ''id'', JNum 2), (str ''case_id'', lit ''C1''), (str ''status'', lit ''draft''),
                (str ''form_data'',
                   JObj [(str ''id'', JNum 1), (str ''case_id'', lit ''C1''),
                         (str ''applicant_first_name'', lit ''Jan'')]),
                (str ''auto_populated_fields'',
                   JArr [lit ''applicant_first_name'', lit ''father_last_name'']),
                (str ''hac_approved'', JBool False)]]"
    by code_simp
  have e3: "fst ?x
       = Return (succeeded (check_mark @ str '' OBY draft created with 1 auto-populated fields''))"
    by code_simp
  have e4: "fst ?y
       = Return (succeeded (check_mark @ str '' OBY draft updated with 2 auto-populated fields''))"
    by code_simp
  show ?thesis
    by (intro conjI) (rule h1, rule h2, rule h3, rule t, rule e1, rule e2, rule e3, rule e4)
qed

text \<open>
  C8, as the claim states it, fails: two calls of one batch run concurrently. When the
  backend answers the lookups of both before it gets to the write of either, both find no
  draft, both insert, and the case is left with two drafts.
\<close>

theorem concurrent_drafts_counterexample:
  "oby_ready (JStr (str ''C1'')) (sample_case_backend [] JNull)
   \<and> fst (run (executeToolsParallel reference_parse [0, 1, 0, 1]
            [tool_call ''call_1'' ''create_oby_draft'' ''{\"caseId\":\"C1\"}'',
             tool_call ''call_2'' ''create_oby_draft'' ''{\"caseId\":\"C1\"}'']
            (str ''C1'') (str ''system'')) (sample_case_backend [] JNull))
       = Return [\<lparr>tool_call_id = lit ''call_1'', name = lit ''create_oby_draft'',
                  result = succeeded (check_mark
                             @ str '' OBY draft created with 0 auto-populated fields'')\<rparr>,
                 \<lparr>tool_call_id = lit ''call_2'', name = lit ''create_oby_draft'',
                  result = succeeded (check_mark
                             @ str '' OBY draft created with 0 auto-populated fields'')\<rparr>]
   \<and> length (drafts_for (JStr (str ''C1''))
         (snd (run (executeToolsParallel reference_parse [0, 1, 0, 1]
            [tool_call ''call_1'' ''create_oby_draft'' ''{\"caseId\":\"C1\"}'',
             tool_call ''call_2'' ''create_oby_draft'' ''{\"caseId\":\"C1\"}'']
            (str ''C1'') (str ''system'')) (sample_case_backend [] JNull)))) = 2"
  by code_simp

end
